theory Spec2Isabelle
  imports Complex_Main
begin

section \<open>Text intake: character set, normalisation and validation\<close>

text \<open>
  Python strings are modelled as \<^typ>\<open>string\<close>; a character stands for the code point
  of the same number, so the model covers code points 0 to 255. Every character the
  valid set admits is ASCII.
\<close>

text \<open>\<^verbatim>\<open>MyWindow.__init__\<close>: \<^verbatim>\<open>self.valid_chars\<close>, in the order of the source list.\<close>

definition valid_chars :: "char list" where
  "valid_chars =
     [CHR 0x22] @ ''6Gb)I0Oc9L8tqs'' @ [CHR 0x00] @ ''USWak2BM7TgfFPlEvyjYJ-R!#.or?C'' @
     [CHR 0x27] @ ''5mh4Aupwn(Vd1,Hix;:zK3N De'' @ [CHR 0x0A]"

text \<open>\<^verbatim>\<open>str.isspace\<close> on one character, for code points below 256.\<close>

definition py_isspace :: "char \<Rightarrow> bool" where
  "py_isspace c =
     (c \<in> set [CHR 0x09, CHR 0x0A, CHR 0x0B, CHR 0x0C, CHR 0x0D, CHR 0x1C, CHR 0x1D,
                CHR 0x1E, CHR 0x1F, CHR 0x20, CHR 0x85, CHR 0xA0])"

text \<open>\<^verbatim>\<open>"".join(text.split())\<close>: the text without its whitespace.\<close>

definition join_split :: "string \<Rightarrow> string" where
  "join_split t = filter (\<lambda>c. \<not> py_isspace c) t"

text \<open>\<^verbatim>\<open>str.strip()\<close>.\<close>

definition py_strip :: "string \<Rightarrow> string" where
  "py_strip t = rev (dropWhile py_isspace (rev (dropWhile py_isspace t)))"

text \<open>\<^verbatim>\<open>text.replace('Q', 'q').replace('X', 'x')\<close>.\<close>

definition py_replace :: "char \<Rightarrow> char \<Rightarrow> string \<Rightarrow> string" where
  "py_replace a b t = map (\<lambda>c. if c = a then b else c) t"

definition replace_QX :: "string \<Rightarrow> string" where
  "replace_QX t = py_replace CHR ''X'' CHR ''x'' (py_replace CHR ''Q'' CHR ''q'' t)"

text \<open>
  \<^verbatim>\<open>self.inputtext.get("1.0", tk.END)\<close>: the content of the text widget followed by the
  newline Tk appends.
\<close>

definition inputtext_get :: "string \<Rightarrow> string" where
  "inputtext_get content = content @ [CHR 0x0A]"

datatype dialog_error = NoText | InvalidChars char

text \<open>The first letter of the text that is not in the valid set (the \<^verbatim>\<open>for letter in text\<close> loops).\<close>

fun first_invalid :: "string \<Rightarrow> char option" where
  "first_invalid [] = None"
| "first_invalid (c # cs) = (if c \<notin> set valid_chars then Some c else first_invalid cs)"

text \<open>
  \<^verbatim>\<open>generate_dialog\<close>, lines 1559 to 1597 (\<^verbatim>\<open>is_queue_item\<close> false): the text the run
  will synthesise, or the error shown. The first argument is \<^verbatim>\<open>auto_remove_invalid\<close>,
  the second the content of the text widget.
\<close>

definition generate_dialog_text :: "bool \<Rightarrow> string \<Rightarrow> dialog_error + string" where
  "generate_dialog_text auto_remove content =
     (let text = replace_QX (inputtext_get content) in
      if length (join_split text) = 0 then Inl NoText
      else if auto_remove then Inr (filter (\<lambda>c. c \<in> set valid_chars) text)
      else (case first_invalid text of
              Some letter \<Rightarrow> Inl (InvalidChars letter)
            | None \<Rightarrow> Inr text))"

text \<open>\<^verbatim>\<open>class QueueItem\<close>.\<close>

record queue_item =
  item_text :: string
  item_name :: string

definition QueueItem :: "string \<Rightarrow> string \<Rightarrow> queue_item" where
  "QueueItem text name =
     \<lparr>item_text = text,
      item_name = (if name \<noteq> [] then name
                   else take 20 (py_strip text) @
                        (if length (py_strip text) > 20 then ''...'' else []))\<rparr>"

text \<open>
  \<^verbatim>\<open>add_to_queue\<close>, lines 1424 to 1446: the queue item appended, or the error shown. The
  third argument is the content of the name field.
\<close>

definition add_to_queue_item :: "bool \<Rightarrow> string \<Rightarrow> string \<Rightarrow> dialog_error + queue_item" where
  "add_to_queue_item auto_remove content name_field =
     (let text = replace_QX (inputtext_get content) in
      if length (join_split text) = 0 then Inl NoText
      else if \<not> auto_remove then
        (case first_invalid text of
           Some letter \<Rightarrow> Inl (InvalidChars letter)
         | None \<Rightarrow> Inr (QueueItem text (py_strip name_field)))
      else Inr (QueueItem (filter (\<lambda>c. c \<in> set valid_chars) text) (py_strip name_field)))"

lemma first_invalid_None: "first_invalid t = None \<longleftrightarrow> set t \<subseteq> set valid_chars"
  by (induction t) auto

lemma Q_X_not_valid: "CHR ''Q'' \<notin> set valid_chars" "CHR ''X'' \<notin> set valid_chars"
  by (simp_all add: valid_chars_def)

lemma q_x_valid: "CHR ''q'' \<in> set valid_chars" "CHR ''x'' \<in> set valid_chars"
  by (simp_all add: valid_chars_def)

lemma newline_valid: "CHR 0x0A \<in> set valid_chars"
  by (simp add: valid_chars_def)

lemma replace_QX_valid:
  assumes "set content \<subseteq> set valid_chars \<union> {CHR ''Q'', CHR ''X''}"
  shows "set (replace_QX (inputtext_get content)) \<subseteq> set valid_chars"
  using assms q_x_valid newline_valid
  by (auto simp: replace_QX_def py_replace_def inputtext_get_def)

lemma filter_nonspace_map:
  assumes "\<And>c. py_isspace (f c) = py_isspace c"
  shows "length (filter (\<lambda>c. \<not> py_isspace c) (map f t)) = length (filter (\<lambda>c. \<not> py_isspace c) t)"
  using assms by (induction t) auto

lemma join_split_replace_QX:
  "length (join_split (replace_QX t)) = length (join_split t)"
proof -
  let ?f = "\<lambda>c. if c = CHR ''X'' then CHR ''x'' else if c = CHR ''Q'' then CHR ''q'' else c"
  have sp: "py_isspace (?f c) = py_isspace c" for c
    by (simp add: py_isspace_def)
  have "replace_QX t = map ?f t"
    by (simp add: replace_QX_def py_replace_def)
  then show ?thesis
    unfolding join_split_def using filter_nonspace_map [of ?f t, OF sp] by simp
qed

lemma replace_QX_changes:
  assumes "CHR ''Q'' \<in> set t \<or> CHR ''X'' \<in> set t"
  shows "replace_QX t \<noteq> t"
proof
  assume eq: "replace_QX t = t"
  have "CHR ''Q'' \<notin> set (replace_QX t)" "CHR ''X'' \<notin> set (replace_QX t)"
    by (auto simp: replace_QX_def py_replace_def)
  with eq assms show False by simp
qed

lemma intake_replaces_QX:
  assumes "set content \<subseteq> set valid_chars \<union> {CHR ''Q'', CHR ''X''}"
    and "join_split content \<noteq> []"
  shows "generate_dialog_text False content = Inr (replace_QX (inputtext_get content))"
    and "add_to_queue_item False content name_field =
           Inr (QueueItem (replace_QX (inputtext_get content)) (py_strip name_field))"
proof -
  let ?t = "replace_QX (inputtext_get content)"
  have nonblank: "length (join_split ?t) \<noteq> 0"
    using assms(2) by (simp add: join_split_replace_QX) (simp add: join_split_def inputtext_get_def)
  have valid: "first_invalid ?t = None"
    using replace_QX_valid [OF assms(1)] by (simp add: first_invalid_None)
  show "generate_dialog_text False content = Inr ?t"
    using nonblank valid by (simp add: generate_dialog_text_def Let_def)
  show "add_to_queue_item False content name_field = Inr (QueueItem ?t (py_strip name_field))"
    using nonblank valid by (simp add: add_to_queue_item_def Let_def)
qed

text \<open>
  C10. Both intake paths replace every \<open>Q\<close> by \<open>q\<close> and every \<open>X\<close> by \<open>x\<close> before they
  validate. \<open>Q\<close> and \<open>X\<close> are not in the valid character set, yet a text whose other
  characters are valid and that is not blank is accepted by \<^verbatim>\<open>generate_dialog\<close> and by
  \<^verbatim>\<open>add_to_queue\<close> (invalid characters not auto-removed), the accepted text is the
  submitted text with the two letters replaced, and it differs from the submitted text as
  soon as that contains a \<open>Q\<close> or an \<open>X\<close>.
\<close>

theorem C10_uppercase_QX_replaced_before_validation:
  assumes "set content \<subseteq> set valid_chars \<union> {CHR ''Q'', CHR ''X''}"
    and "join_split content \<noteq> []"
  shows "CHR ''Q'' \<notin> set valid_chars \<and> CHR ''X'' \<notin> set valid_chars \<and>
         generate_dialog_text False content =
           Inr (map (\<lambda>c. if c = CHR ''Q'' then CHR ''q'' else if c = CHR ''X'' then CHR ''x'' else c)
                  (inputtext_get content)) \<and>
         (\<exists>item. add_to_queue_item False content name_field = Inr item \<and>
            item_text item =
              map (\<lambda>c. if c = CHR ''Q'' then CHR ''q'' else if c = CHR ''X'' then CHR ''x'' else c)
                (inputtext_get content)) \<and>
         (CHR ''Q'' \<in> set content \<or> CHR ''X'' \<in> set content \<longrightarrow>
            generate_dialog_text False content \<noteq> Inr (inputtext_get content) \<and>
            (\<forall>item. add_to_queue_item False content name_field = Inr item \<longrightarrow>
                 item_text item \<noteq> inputtext_get content))"
proof -
  let ?t = "replace_QX (inputtext_get content)"
  let ?m = "map (\<lambda>c. if c = CHR ''Q'' then CHR ''q'' else if c = CHR ''X'' then CHR ''x'' else c)
              (inputtext_get content)"
  have map_eq: "?t = ?m"
    by (simp add: replace_QX_def py_replace_def)
  note gd = intake_replaces_QX(1) [OF assms]
  note aq = intake_replaces_QX(2) [OF assms, of name_field]
  have c1: "CHR ''Q'' \<notin> set valid_chars \<and> CHR ''X'' \<notin> set valid_chars"
    using Q_X_not_valid by simp
  have c2: "generate_dialog_text False content = Inr ?m"
    unfolding gd map_eq by (rule refl)
  have c3: "\<exists>item. add_to_queue_item False content name_field = Inr item \<and> item_text item = ?m"
    unfolding aq using map_eq by (simp add: QueueItem_def)
  have c4: "generate_dialog_text False content \<noteq> Inr (inputtext_get content) \<and>
           (\<forall>item. add_to_queue_item False content name_field = Inr item \<longrightarrow>
                item_text item \<noteq> inputtext_get content)"
    if "CHR ''Q'' \<in> set content \<or> CHR ''X'' \<in> set content"
  proof -
    from that have "CHR ''Q'' \<in> set (inputtext_get content) \<or> CHR ''X'' \<in> set (inputtext_get content)"
      by (auto simp: inputtext_get_def)
    then have ne: "?t \<noteq> inputtext_get content" by (rule replace_QX_changes)
    have "generate_dialog_text False content \<noteq> Inr (inputtext_get content)"
      unfolding gd using ne by simp
    moreover have "item_text item \<noteq> inputtext_get content"
      if "add_to_queue_item False content name_field = Inr item" for item
    proof -
      from that have "item = QueueItem ?t (py_strip name_field)" unfolding aq by simp
      then show ?thesis using ne by (simp add: QueueItem_def)
    qed
    ultimately show ?thesis by blast
  qed
  from c1 c2 c3 c4 show ?thesis by blast
qed

theorem C10_uppercase_QX_replaced_witness:
  "set ''Quiz X'' \<subseteq> set valid_chars \<union> {CHR ''Q'', CHR ''X''} \<and> join_split ''Quiz X'' \<noteq> [] \<and>
   generate_dialog_text False ''Quiz X'' = Inr (''quiz x'' @ [CHR 0x0A]) \<and>
   (\<exists>item. add_to_queue_item False ''Quiz X'' ''first'' = Inr item \<and>
      item_text item = ''quiz x'' @ [CHR 0x0A]) \<and>
   generate_dialog_text False ''Quiz X'' \<noteq> Inr (inputtext_get ''Quiz X'')"
proof -
  have h1: "set ''Quiz X'' \<subseteq> set valid_chars \<union> {CHR ''Q'', CHR ''X''}"
    by (simp add: valid_chars_def)
  have h2: "join_split ''Quiz X'' \<noteq> []"
    by (simp add: join_split_def py_isspace_def)
  show ?thesis
    using h1 h2 C10_uppercase_QX_replaced_before_validation [OF h1 h2, of "''first''"]
    by (simp add: inputtext_get_def)
qed

section \<open>Word wrapping: \<^verbatim>\<open>split_string\<close> and \<^verbatim>\<open>textwrap.wrap\<close>\<close>

text \<open>
  \<^verbatim>\<open>split_string\<close> (line 1642) is \<^verbatim>\<open>textwrap.wrap(text, length)\<close> with the defaults of
  \<^verbatim>\<open>TextWrapper\<close>: \<^verbatim>\<open>expand_tabs\<close>, \<^verbatim>\<open>replace_whitespace\<close>, \<^verbatim>\<open>drop_whitespace\<close>,
  \<^verbatim>\<open>break_long_words\<close> and \<^verbatim>\<open>break_on_hyphens\<close> are on, there is no indent and no
  \<^verbatim>\<open>max_lines\<close>. \<^verbatim>\<open>textwrap\<close> is Python's standard library; the definitions of this
  section follow \<^verbatim>\<open>Lib/textwrap.py\<close> of CPython 3.11 method by method.
\<close>

datatype py_exception =
  ValueError | ZeroDivisionError | IndexError | FileNotFoundError nat | OtherException string

text \<open>\<^verbatim>\<open>_whitespace = '\t\n\x0b\x0c\r '\<close>.\<close>

definition tw_whitespace :: "char \<Rightarrow> bool" where
  "tw_whitespace c = (c \<in> set [CHR 0x09, CHR 0x0A, CHR 0x0B, CHR 0x0C, CHR 0x0D, CHR 0x20])"
text \<open>
  The character classes of \<^verbatim>\<open>wordsep_re\<close> on code points below 256: \<^verbatim>\<open>\d\<close>, \<^verbatim>\<open>\w\<close>
  (alphanumeric or underscore), \<^verbatim>\<open>letter = [^\d\W]\<close> and \<^verbatim>\<open>word_punct = [\w!"'&.,?]\<close>.
\<close>

definition re_digit :: "char \<Rightarrow> bool" where
  "re_digit c = (48 \<le> (of_char c :: nat) \<and> (of_char c :: nat) \<le> 57)"

definition re_word :: "char \<Rightarrow> bool" where
  "re_word c =
     (let n = (of_char c :: nat) in
      (48 \<le> n \<and> n \<le> 57) \<or> (65 \<le> n \<and> n \<le> 90) \<or> n = 95 \<or> (97 \<le> n \<and> n \<le> 122) \<or>
      n \<in> set [170, 178, 179, 181, 185, 186, 188, 189, 190] \<or>
      (192 \<le> n \<and> n \<le> 214) \<or> (216 \<le> n \<and> n \<le> 246) \<or> 248 \<le> n)"

definition re_letter :: "char \<Rightarrow> bool" where
  "re_letter c = (re_word c \<and> \<not> re_digit c)"

definition word_punct :: "char \<Rightarrow> bool" where
  "word_punct c = (re_word c \<or> c \<in> set [CHR ''!'', CHR 0x22, CHR 0x27, CHR ''&'', CHR ''.'', CHR '','', CHR ''?''])"
text \<open>\<^verbatim>\<open>str.expandtabs(8)\<close>; the first argument is the current column.\<close>

fun expandtabs :: "nat \<Rightarrow> string \<Rightarrow> string" where
  "expandtabs j [] = []"
| "expandtabs j (c # cs) =
     (if c = CHR 0x09 then replicate (8 - j mod 8) CHR '' '' @ expandtabs (j + (8 - j mod 8)) cs
      else if c = CHR 0x0A \<or> c = CHR 0x0D then c # expandtabs 0 cs
      else c # expandtabs (j + 1) cs)"
text \<open>\<^verbatim>\<open>_munge_whitespace\<close>: tabs expanded, then every whitespace character made a space.\<close>

definition munge_whitespace :: "string \<Rightarrow> string" where
  "munge_whitespace t = map (\<lambda>c. if tw_whitespace c then CHR '' '' else c) (expandtabs 0 t)"
text \<open>
  \<^verbatim>\<open>_split\<close> is \<^verbatim>\<open>wordsep_re.split(text)\<close> without the empty strings. The pattern
  matches at every position, so the chunks are its successive matches: a run of
  whitespace; or two or more hyphens after a \<^verbatim>\<open>word_punct\<close> character and before a
  \<^verbatim>\<open>\w\<close> character (\<^verbatim>\<open>(?<=wp) -{2,} (?=\w)\<close>); or the shortest run of characters that
  are not whitespace which is followed by a hyphen that may break the word, by whitespace
  or the end of the text, or by such an em-dash.

  \<open>dashes_then_word\<close> is the lookahead \<^verbatim>\<open>(?=-{2,}\w)\<close>. \<open>hyphen_lookbehind\<close> takes
  the text before the hyphen, last character first, and is
  \<^verbatim>\<open>(?<=letter{2}-) | (?<=letter-letter-)\<close>; \<open>hyphen_lookahead\<close> takes the text after
  the hyphen and is \<^verbatim>\<open>(?= letter -? letter)\<close>.
\<close>

definition dashes_then_word :: "string \<Rightarrow> bool" where
  "dashes_then_word rest =
     (let k = length (takeWhile (\<lambda>c. c = CHR ''-'') rest) in
      2 \<le> k \<and> (case drop k rest of [] \<Rightarrow> False | x # _ \<Rightarrow> re_word x))"

definition hyphen_lookbehind :: "string \<Rightarrow> bool" where
  "hyphen_lookbehind prev =
     (case prev of
        a # b # zs \<Rightarrow>
          (re_letter a \<and> re_letter b) \<or>
          (re_letter a \<and> b = CHR ''-'' \<and> (case zs of [] \<Rightarrow> False | c # _ \<Rightarrow> re_letter c))
      | _ \<Rightarrow> False)"

definition hyphen_lookahead :: "string \<Rightarrow> bool" where
  "hyphen_lookahead after =
     (case after of
        x # y # zs \<Rightarrow>
          re_letter x \<and> (re_letter y \<or> (y = CHR ''-'' \<and> (case zs of [] \<Rightarrow> False | z # _ \<Rightarrow> re_letter z)))
      | _ \<Rightarrow> False)"
text \<open>
  The lazy \<^verbatim>\<open>nowhitespace+?\<close> of the word alternative: how many more characters the word
  takes from the rest of the text, given the text before (last character first), which
  already holds at least one character of the word.
\<close>

fun word_end :: "string \<Rightarrow> string \<Rightarrow> nat" where
  "word_end prev [] = 0"
| "word_end prev (c # cs) =
     (if c = CHR ''-'' \<and> hyphen_lookbehind prev \<and> hyphen_lookahead cs then 1
      else if tw_whitespace c then 0
      else if (case prev of [] \<Rightarrow> False | a # _ \<Rightarrow> word_punct a) \<and> dashes_then_word (c # cs) then 0
      else Suc (word_end (c # prev) cs))"
text \<open>The length of the match at the head of a non-empty rest of the text.\<close>

definition next_chunk_len :: "string \<Rightarrow> string \<Rightarrow> nat" where
  "next_chunk_len prev rest =
     (case rest of
        [] \<Rightarrow> 0
      | c # cs \<Rightarrow>
          if tw_whitespace c then length (takeWhile tw_whitespace rest)
          else if (case prev of [] \<Rightarrow> False | a # _ \<Rightarrow> word_punct a) \<and> dashes_then_word rest
            then length (takeWhile (\<lambda>c. c = CHR ''-'') rest)
          else Suc (word_end (c # prev) cs))"

lemma next_chunk_len_pos: "rest \<noteq> [] \<Longrightarrow> 0 < next_chunk_len prev rest"
  by (cases rest) (auto simp: next_chunk_len_def dashes_then_word_def Let_def)
text \<open>The successive matches, from a position in the text.\<close>

function split_from :: "string \<Rightarrow> string \<Rightarrow> string list" where
  "split_from prev rest =
     (if rest = [] then []
      else let n = next_chunk_len prev rest
           in take n rest # split_from (rev (take n rest) @ prev) (drop n rest))"
  by pat_completeness auto
termination
  by (relation "measure (\<lambda>(prev, rest). length rest)") (auto simp: next_chunk_len_pos)

declare split_from.simps [simp del]
definition tw_split :: "string \<Rightarrow> string list" where
  "tw_split t = split_from [] t"
text \<open>
  The inner loop of \<^verbatim>\<open>_wrap_chunks\<close>: how many of the next chunks fit on the current
  line, whose length so far is \<open>cur_len\<close>.
\<close>

fun fitting :: "nat \<Rightarrow> nat \<Rightarrow> string list \<Rightarrow> nat" where
  "fitting width cur_len [] = 0"
| "fitting width cur_len (c # chunks) =
     (if cur_len + length c \<le> width then Suc (fitting width (cur_len + length c) chunks) else 0)"
text \<open>\<^verbatim>\<open>chunk.rfind('-', 0, stop)\<close>, \<open>None\<close> for \<open>-1\<close>.\<close>

definition rfind_hyphen :: "string \<Rightarrow> nat \<Rightarrow> nat option" where
  "rfind_hyphen chunk stop =
     (let seg = take stop chunk;
          k = length (takeWhile (\<lambda>c. c \<noteq> CHR ''-'') (rev seg))
      in if k = length seg then None else Some (length seg - 1 - k))"
text \<open>
  \<^verbatim>\<open>_handle_long_word\<close> with \<^verbatim>\<open>break_long_words\<close>: the number \<^verbatim>\<open>end\<close> of characters of
  the long chunk that go on the current line.
\<close>

definition long_word_end :: "string \<Rightarrow> nat \<Rightarrow> nat" where
  "long_word_end chunk space_left =
     (if length chunk > space_left then
        (case rfind_hyphen chunk space_left of
           None \<Rightarrow> space_left
         | Some hyphen \<Rightarrow>
             if hyphen > 0 \<and> list_ex (\<lambda>c. c \<noteq> CHR ''-'') (take hyphen chunk) then hyphen + 1
             else space_left)
      else space_left)"
text \<open>
  One pass of the outer loop of \<^verbatim>\<open>_wrap_chunks\<close>: the chunks of the line it builds and
  the chunks left. \<open>started\<close> says whether a line has been stored before
  (\<^verbatim>\<open>lines\<close> is not empty).
\<close>

definition wrap_line :: "nat \<Rightarrow> bool \<Rightarrow> string list \<Rightarrow> string list \<times> string list" where
  "wrap_line width started chunks =
     (let chunks1 = (case chunks of
                       [] \<Rightarrow> []
                     | c # cs \<Rightarrow> if py_strip c = [] \<and> started then cs else chunks);
          k = fitting width 0 chunks1;
          cur_line = take k chunks1;
          chunks2 = drop k chunks1;
          cur_len = length (concat cur_line)
      in case chunks2 of
           [] \<Rightarrow> (if cur_line \<noteq> [] \<and> py_strip (last cur_line) = [] then butlast cur_line else cur_line, [])
         | c # cs \<Rightarrow>
             if length c > width then
               (let cut = long_word_end c (width - cur_len);
                    cur_line2 = cur_line @ [take cut c]
                in (if py_strip (last cur_line2) = [] then butlast cur_line2 else cur_line2,
                    drop cut c # cs))
             else (if cur_line \<noteq> [] \<and> py_strip (last cur_line) = [] then butlast cur_line else cur_line,
                   chunks2))"
text \<open>The measure of the outer loop: every pass removes a chunk or a character.\<close>

definition chunks_size :: "string list \<Rightarrow> nat" where
  "chunks_size chunks = sum_list (map (\<lambda>c. Suc (length c)) chunks)"

lemma fitting_bound:
  "cur_len \<le> width \<Longrightarrow> cur_len + length (concat (take (fitting width cur_len chunks) chunks)) \<le> width"
proof (induction chunks arbitrary: cur_len)
  case Nil
  then show ?case by simp
next
  case (Cons c chunks)
  show ?case
  proof (cases "cur_len + length c \<le> width")
    case True
    from Cons.IH [OF True] True show ?thesis by (simp add: add.assoc)
  next
    case False
    with Cons.prems show ?thesis by simp
  qed
qed

lemma rfind_hyphen_less:
  assumes "rfind_hyphen chunk stop = Some h"
  shows "h < stop"
proof -
  define seg where "seg = take stop chunk"
  define k where "k = length (takeWhile (\<lambda>c. c \<noteq> CHR ''-'') (rev seg))"
  have "k \<le> length seg"
    unfolding k_def using length_takeWhile_le [of _ "rev seg"] by simp
  moreover have "k \<noteq> length seg \<and> h = length seg - 1 - k"
    using assms unfolding rfind_hyphen_def Let_def seg_def [symmetric] k_def [symmetric]
    by (simp split: if_splits)
  moreover have "length seg \<le> stop" by (simp add: seg_def)
  ultimately show ?thesis by linarith
qed

lemma long_word_end_le: "long_word_end chunk space_left \<le> space_left"
  by (auto simp: long_word_end_def dest: rfind_hyphen_less split: option.splits)

lemma long_word_end_pos: "0 < space_left \<Longrightarrow> 0 < long_word_end chunk space_left"
  by (auto simp: long_word_end_def split: option.splits)

lemma concat_butlast_le: "length (concat (butlast xs)) \<le> length (concat xs)"
  by (induction xs) auto

lemma wrap_line_bound:
  "length (concat (fst (wrap_line width started chunks))) \<le> width"
proof -
  define chunks1 where "chunks1 = (case chunks of
                       [] \<Rightarrow> []
                     | c # cs \<Rightarrow> if py_strip c = [] \<and> started then cs else chunks)"
  define cur_line where "cur_line = take (fitting width 0 chunks1) chunks1"
  have cl: "length (concat cur_line) \<le> width"
    using fitting_bound [of 0 width chunks1] by (simp add: cur_line_def)
  have bl: "length (concat (butlast cur_line)) \<le> width"
    using cl concat_butlast_le [of cur_line] by simp
  have long: "length (concat (cur_line @ [take (long_word_end c (width - length (concat cur_line))) c])) \<le> width" for c
    using cl long_word_end_le [of c "width - length (concat cur_line)"] by simp
  show ?thesis
    unfolding wrap_line_def Let_def chunks1_def [symmetric] cur_line_def [symmetric]
    using cl bl long by (auto split: list.splits)
qed

lemma chunks_size_drop: "chunks_size (drop k chunks) \<le> chunks_size chunks"
  unfolding chunks_size_def by (induction chunks arbitrary: k) (auto simp: drop_Cons split: nat.splits intro: le_SucI trans_le_add2)

lemma chunks_size_drop_pos: "0 < k \<Longrightarrow> chunks \<noteq> [] \<Longrightarrow> chunks_size (drop k chunks) < chunks_size chunks"
proof (cases chunks)
  case Nil
  assume "chunks \<noteq> []" with Nil show ?thesis by simp
next
  case (Cons c cs)
  assume "0 < k"
  then obtain j where "k = Suc j" by (cases k) auto
  then show ?thesis using Cons chunks_size_drop [of j cs] by (simp add: chunks_size_def)
qed

lemma wrap_line_decreases:
  assumes "chunks \<noteq> []" "0 < width"
  shows "chunks_size (snd (wrap_line width started chunks)) < chunks_size chunks"
proof -
  define chunks1 where "chunks1 = (case chunks of
                       [] \<Rightarrow> []
                     | c # cs \<Rightarrow> if py_strip c = [] \<and> started then cs else chunks)"
  define k where "k = fitting width 0 chunks1"
  define chunks2 where "chunks2 = drop k chunks1"
  define cur_len where "cur_len = length (concat (take k chunks1))"
  define chunks3 where "chunks3 = snd (wrap_line width started chunks)"
  have c1: "chunks_size chunks1 \<le> chunks_size chunks"
    using assms(1) by (cases chunks) (auto simp: chunks1_def chunks_size_def)
  have c2: "chunks_size chunks2 \<le> chunks_size chunks1"
    unfolding chunks2_def by (rule chunks_size_drop)
  have c3: "chunks3 = (case chunks2 of [] \<Rightarrow> []
      | c # cs \<Rightarrow> if length c > width then drop (long_word_end c (width - cur_len)) c # cs else chunks2)"
    unfolding chunks3_def wrap_line_def Let_def chunks1_def [symmetric] k_def [symmetric]
      chunks2_def [symmetric] cur_len_def [symmetric]
    by (auto split: list.splits)
  have c3le: "chunks_size chunks3 \<le> chunks_size chunks2"
    unfolding c3 by (auto simp: chunks_size_def split: list.splits)
  show ?thesis
  proof (cases "chunks1 = chunks")
    case False
    then have "chunks_size chunks1 < chunks_size chunks"
      using assms(1) by (cases chunks) (auto simp: chunks1_def chunks_size_def split: if_splits)
    with c2 c3le show ?thesis unfolding chunks3_def by linarith
  next
    case True
    show ?thesis
    proof (cases "k = 0")
      case False
      then have "chunks_size chunks2 < chunks_size chunks1"
        unfolding chunks2_def using True assms(1) by (intro chunks_size_drop_pos) auto
      with c1 c3le show ?thesis unfolding chunks3_def by linarith
    next
      case k0: True
      obtain c cs where cs: "chunks1 = c # cs" using True assms(1) by (cases chunks1) auto
      from k0 cs have long: "length c > width" by (auto simp: k_def split: if_splits)
      have ch2: "chunks2 = c # cs" using k0 cs by (simp add: chunks2_def)
      have cl0: "cur_len = 0" using k0 by (simp add: cur_len_def)
      have "0 < long_word_end c width" using assms(2) by (rule long_word_end_pos)
      moreover have "long_word_end c width \<le> width" by (rule long_word_end_le)
      ultimately have "chunks_size chunks3 < chunks_size chunks2"
        unfolding c3 ch2 using long cl0 by (simp add: chunks_size_def)
      with c1 c2 show ?thesis unfolding chunks3_def by linarith
    qed
  qed
qed
text \<open>
  The outer loop of \<^verbatim>\<open>_wrap_chunks\<close>. \<^verbatim>\<open>_wrap_chunks\<close> raises \<^verbatim>\<open>ValueError\<close> before the
  loop when the width is not positive, so the loop never runs with width 0.
\<close>

function wrap_loop :: "nat \<Rightarrow> bool \<Rightarrow> string list \<Rightarrow> string list" where
  "wrap_loop width started chunks =
     (if chunks = [] \<or> width = 0 then []
      else let r = wrap_line width started chunks
           in if fst r \<noteq> [] then concat (fst r) # wrap_loop width True (snd r)
              else wrap_loop width started (snd r))"
  by pat_completeness auto
termination
  by (relation "measure (\<lambda>(width, started, chunks). chunks_size chunks)")
     (auto simp: wrap_line_decreases)

declare wrap_loop.simps [simp del]
text \<open>\<^verbatim>\<open>_wrap_chunks\<close>, \<^verbatim>\<open>TextWrapper.wrap\<close> and \<^verbatim>\<open>MyWindow.split_string\<close>.\<close>

definition wrap_chunks :: "int \<Rightarrow> string list \<Rightarrow> py_exception + string list" where
  "wrap_chunks width chunks =
     (if width \<le> 0 then Inl ValueError else Inr (wrap_loop (nat width) False chunks))"

definition textwrap_wrap :: "string \<Rightarrow> int \<Rightarrow> py_exception + string list" where
  "textwrap_wrap t width = wrap_chunks width (tw_split (munge_whitespace t))"

definition split_string :: "string \<Rightarrow> int \<Rightarrow> py_exception + string list" where
  "split_string t len = textwrap_wrap t len"
text \<open>
  \<^verbatim>\<open>generate_writing\<close>, lines 1676 to 1685: the lines to synthesise. A line longer than
  the maximal width is wrapped, an empty line becomes one space.
\<close>

fun prepare_lines :: "int \<Rightarrow> string list \<Rightarrow> py_exception + string list" where
  "prepare_lines max_width [] = Inr []"
| "prepare_lines max_width (line # lines) =
     (if int (length line) > max_width then
        (case split_string line max_width of
           Inl e \<Rightarrow> Inl e
         | Inr sublines \<Rightarrow>
             (case prepare_lines max_width lines of
                Inl e \<Rightarrow> Inl e
              | Inr rest \<Rightarrow> Inr (sublines @ rest)))
      else
        (case prepare_lines max_width lines of
           Inl e \<Rightarrow> Inl e
         | Inr rest \<Rightarrow> Inr ((if line \<noteq> [] then line else '' '') # rest)))"

lemma wrap_loop_bound:
  "sub \<in> set (wrap_loop width started chunks) \<Longrightarrow> length sub \<le> width"
proof (induction width started chunks rule: wrap_loop.induct)
  case (1 width started chunks)
  show ?case
  proof (cases "chunks = [] \<or> width = 0")
    case True
    with "1.prems" show ?thesis by (simp add: wrap_loop.simps)
  next
    case False
    define r where "r = wrap_line width started chunks"
    show ?thesis
    proof (cases "fst r \<noteq> []")
      case True
      from "1.prems" False True
      have "sub = concat (fst r) \<or> sub \<in> set (wrap_loop width True (snd r))"
        by (subst (asm) wrap_loop.simps) (simp add: r_def Let_def)
      then show ?thesis
      proof
        assume "sub = concat (fst r)"
        then show ?thesis using wrap_line_bound [of width started chunks] by (simp add: r_def)
      next
        assume "sub \<in> set (wrap_loop width True (snd r))"
        then show ?thesis using "1.IH"(1) [OF False r_def True] by simp
      qed
    next
      case nl: False
      from "1.prems" False nl
      have "sub \<in> set (wrap_loop width started (snd r))"
        by (subst (asm) wrap_loop.simps) (simp add: r_def Let_def)
      then show ?thesis using "1.IH"(2) [OF False r_def nl] by simp
    qed
  qed
qed

lemma split_string_bound:
  assumes "0 < max_width"
  shows "\<exists>sublines. split_string line max_width = Inr sublines \<and>
           (\<forall>sub\<in>set sublines. int (length sub) \<le> max_width)"
proof -
  let ?r = "wrap_loop (nat max_width) False (tw_split (munge_whitespace line))"
  have "split_string line max_width = Inr ?r"
    using assms by (simp add: split_string_def textwrap_wrap_def wrap_chunks_def)
  moreover have "int (length sub) \<le> max_width" if "sub \<in> set ?r" for sub
    using wrap_loop_bound [OF that] assms by linarith
  ultimately show ?thesis by blast
qed

lemma prepare_lines_bound:
  assumes "0 < max_width"
  shows "\<exists>ls. prepare_lines max_width lines = Inr ls \<and> (\<forall>l\<in>set ls. int (length l) \<le> max_width)"
proof (induction lines)
  case Nil
  show ?case by simp
next
  case (Cons line lines)
  then obtain rest where rest: "prepare_lines max_width lines = Inr rest"
    and rb: "\<forall>l\<in>set rest. int (length l) \<le> max_width" by blast
  show ?case
  proof (cases "int (length line) > max_width")
    case True
    from split_string_bound [OF assms, of line] obtain sublines
      where "split_string line max_width = Inr sublines"
        and "\<forall>sub\<in>set sublines. int (length sub) \<le> max_width" by blast
    with True rest rb show ?thesis by auto
  next
    case False
    with rest rb assms show ?thesis by auto
  qed
qed

text \<open>
  C5, as the code has it. For a positive maximal width, wrapping a line neither fails nor
  yields a sub-line longer than the width, whatever the line: a word longer than the width
  is cut into pieces that fit (\<^verbatim>\<open>break_long_words\<close> is on by default), it does not
  overflow. Hence every line \<^verbatim>\<open>generate_writing\<close> hands to the synthesiser is at most
  \<open>max_width\<close> characters long.
\<close>

theorem C5_sublines_never_exceed_width:
  assumes "0 < max_width"
  shows "(\<exists>sublines. split_string line max_width = Inr sublines \<and>
            (\<forall>sub\<in>set sublines. int (length sub) \<le> max_width)) \<and>
         (\<exists>ls. prepare_lines max_width lines = Inr ls \<and>
            (\<forall>l\<in>set ls. int (length l) \<le> max_width))"
  using split_string_bound [OF assms] prepare_lines_bound [OF assms] by blast

theorem C5_sublines_never_exceed_width_witness:
  "(0::int) < 5 \<and>
   split_string ''hello aaaaaaaaaaaa world'' 5 = Inr [''hello'', ''aaaaa'', ''aaaaa'', ''aa'', ''world''] \<and>
   prepare_lines 5 [''hi'', [], ''ab-cdefghij klm''] = Inr [''hi'', '' '', ''ab-cd'', ''efghi'', ''j klm''] \<and>
   list_all (\<lambda>l. int (length l) \<le> 5) [''hi'', '' '', ''ab-cd'', ''efghi'', ''j klm'']"
proof -
  have h: "(0::int) < 5" by simp
  have s: "split_string ''hello aaaaaaaaaaaa world'' 5 = Inr [''hello'', ''aaaaa'', ''aaaaa'', ''aa'', ''world'']"
    by code_simp
  have p: "prepare_lines 5 [''hi'', [], ''ab-cdefghij klm''] = Inr [''hi'', '' '', ''ab-cd'', ''efghi'', ''j klm'']"
    by code_simp
  from C5_sublines_never_exceed_width [OF h, of "''hello aaaaaaaaaaaa world''" "[''hi'', [], ''ab-cdefghij klm'']"]
  have "\<forall>l\<in>set [''hi'', '' '', ''ab-cd'', ''efghi'', ''j klm'']. int (length l) \<le> 5"
    unfolding p by simp
  then have "list_all (\<lambda>l. int (length l) \<le> 5) [''hi'', '' '', ''ab-cd'', ''efghi'', ''j klm'']"
    by simp
  with h s p show ?thesis by blast
qed

text \<open>
  C5 as stated fails: the claim lets a word longer than the width stand unbroken on a
  sub-line of its own. A line that is one word of 12 letters, wrapped at width 5, comes
  back as three pieces of at most 5 letters, and the word itself is no sub-line.
\<close>

theorem C5_long_word_is_broken_counterexample:
  "split_string ''aaaaaaaaaaaa'' 5 = Inr [''aaaaa'', ''aaaaa'', ''aa''] \<and>
   split_string ''aaaaaaaaaaaa'' 5 \<noteq> Inr [''aaaaaaaaaaaa'']"
proof -
  have "split_string ''aaaaaaaaaaaa'' 5 = Inr [''aaaaa'', ''aaaaa'', ''aa'']"
    by code_simp
  then show ?thesis by simp
qed

section \<open>Layout of a line on the page\<close>

text \<open>
  The page canvas is \<^verbatim>\<open>Image.new('RGBA', (2_400, 400+round(line_spacing*len(...))))\<close>
  (line 1741): 2400 pixels wide.
\<close>

definition canvas_width :: int where
  "canvas_width = 2400"

text \<open>
  Lines 1763 to 1765: the default horizontal position of a line image of the given width.
  \<^verbatim>\<open>line_image.width / 2\<close> is Python's true division, so the position is a rational.
\<close>

definition default_x :: "string \<Rightarrow> nat \<Rightarrow> rat" where
  "default_x orientation width =
     (if orientation = ''Right'' then 2000 - of_nat width
      else if orientation = ''Middle'' then 1000 - of_nat width / 2
      else 400)"

text \<open>\<^verbatim>\<open>image_bounds = (img_left, img_top, img_right, img_bottom)\<close>.\<close>

type_synonym bounds = "int \<times> int \<times> int \<times> int"

text \<open>
  Lines 1767 to 1778: the horizontal position after the placed image has been avoided.
  The arguments are \<^verbatim>\<open>image_bounds\<close> (\<open>None\<close> for Python's \<^verbatim>\<open>None\<close>),
  \<^verbatim>\<open>use_image_placement\<close>, \<^verbatim>\<open>self.image_wrap_style.get()\<close>, \<^verbatim>\<open>y_pos\<close>, the default
  \<^verbatim>\<open>x_pos\<close>, and the width and height of the line image.
\<close>

definition avoid_image :: "bounds option \<Rightarrow> bool \<Rightarrow> string \<Rightarrow> int \<Rightarrow> rat \<Rightarrow> nat \<Rightarrow> nat \<Rightarrow> rat" where
  "avoid_image image_bounds use_image_placement wrap_style y_pos x_pos width height =
     (case image_bounds of
        None \<Rightarrow> x_pos
      | Some (img_left, img_top, img_right, img_bottom) \<Rightarrow>
          if use_image_placement then
            if img_top \<le> y_pos + int height \<and> y_pos \<le> img_bottom then
              if x_pos < of_int img_right \<and> x_pos + of_nat width > of_int img_left then
                if wrap_style = ''left'' then of_int img_left - of_nat width - 20
                else if wrap_style = ''right'' then of_int img_right + 20
                else if img_left > 2000 - img_right then of_int img_left - of_nat width - 20
                else of_int img_right + 20
              else x_pos
            else x_pos
          else x_pos)"

text \<open>Python's \<^verbatim>\<open>int(x)\<close> on a number: truncation towards zero.\<close>

definition py_int :: "rat \<Rightarrow> int" where
  "py_int x = (if 0 \<le> x then \<lfloor>x\<rfloor> else \<lceil>x\<rceil>)"

text \<open>
  The body of the loop of lines 1760 to 1779 for line \<open>i\<close>, whose image has the given
  size (width, height): where the line is pasted, \<^verbatim>\<open>(int(x_pos), int(y_pos))\<close>. The
  orientation and the wrap style are read from the controller when the line is composed.
\<close>

definition line_position ::
  "string \<Rightarrow> string \<Rightarrow> int \<Rightarrow> bounds option \<Rightarrow> bool \<Rightarrow> nat \<Rightarrow> nat \<times> nat \<Rightarrow> int \<times> int" where
  "line_position orientation wrap_style line_spacing image_bounds use_image_placement i sz =
     (let y_pos = line_spacing * (int i + 1);
          x_pos = default_x orientation (fst sz)
      in (py_int (avoid_image image_bounds use_image_placement wrap_style y_pos x_pos (fst sz) (snd sz)),
          y_pos))"

text \<open>
  C6 as stated fails. The claim puts a right-aligned line at \<open>2400 - width\<close> and a centred
  line at \<open>1200 - width / 2\<close>; for a line 200 pixels wide the code computes 1800 and 900,
  not 2200 and 1100.
\<close>

theorem C6_alignment_uses_page_width_counterexample:
  "default_x ''Right'' 200 = 1800 \<and>
   default_x ''Right'' 200 \<noteq> of_int canvas_width - 200 \<and>
   default_x ''Middle'' 200 = 900 \<and>
   default_x ''Middle'' 200 \<noteq> of_int canvas_width / 2 - 200 / 2"
  by (simp add: default_x_def canvas_width_def)

text \<open>
  C6, as the code has it. On the 2400 pixel wide canvas the default horizontal position
  of a line is 400 for Left (and for any orientation that is neither Right nor Middle),
  \<open>2000 - width\<close> for Right and \<open>1000 - width / 2\<close> for Middle: the reference width is
  2000, not the canvas width. Without a placed image the line is pasted at that position,
  truncated towards zero, in the vertical slot \<open>line_spacing * (i + 1)\<close>.
\<close>

theorem C6_default_horizontal_position:
  "canvas_width = 2400 \<and>
   default_x ''Left'' width = 400 \<and>
   default_x ''Right'' width = 2000 - of_nat width \<and>
   default_x ''Middle'' width = 1000 - of_nat width / 2 \<and>
   line_position orientation wrap_style line_spacing None use_image_placement i (width, height) =
     (py_int (default_x orientation width), line_spacing * (int i + 1))"
  by (simp add: default_x_def canvas_width_def line_position_def avoid_image_def)

text \<open>
  C7. The obstacle occupies x from 400 to 700 and y from 200 to 500; the line's default
  slot is x = 400, y = 300 and its image is 200 wide (of any height). With wrap style
  right the line ends at x = 720, which is the obstacle's right edge plus the margin of
  20; with wrap style left it ends at x = 180, so that its right edge is at 380, the
  obstacle's left edge minus 20. The same holds for the position where the line is
  pasted when it is the third line (\<open>i = 2\<close>) of a left-aligned page with line spacing 100.
\<close>

theorem C7_obstacle_avoidance_offsets:
  "avoid_image (Some (400, 200, 700, 500)) True ''right'' 300 400 200 height \<ge> 700 + 20 \<and>
   avoid_image (Some (400, 200, 700, 500)) True ''left'' 300 400 200 height + 200 \<le> 400 - 20 \<and>
   default_x ''Left'' 200 = 400 \<and>
   line_position ''Left'' ''right'' 100 (Some (400, 200, 700, 500)) True 2 (200, height) = (720, 300) \<and>
   line_position ''Left'' ''left'' 100 (Some (400, 200, 700, 500)) True 2 (200, height) = (180, 300)"
  by (simp add: avoid_image_def line_position_def default_x_def py_int_def)

text \<open>
  C8 as stated fails. The claim measures the room right of the obstacle on the page,
  which is 2400 wide. For an obstacle from x = 900 to x = 1200 the room on its left is 900
  and the room on its right is \<open>2400 - 1200 = 1200\<close>, so the claim routes a colliding line
  to the right; the code routes it to the left, to \<open>900 - 600 - 20 = 280\<close>.
\<close>

theorem C8_room_measured_on_page_counterexample:
  "avoid_image (Some (900, 200, 1200, 500)) True ''both'' 300 400 600 100 = 900 - 600 - 20 \<and>
   \<not> (900 > canvas_width - 1200)"
  by (simp add: avoid_image_def canvas_width_def)

text \<open>
  C8, as the code has it. A line that collides with the obstacle (its vertical extent
  meets the obstacle's and its default horizontal extent overlaps the obstacle's) and
  whose wrap style is neither left nor right is routed to the left of the obstacle exactly
  when \<open>img_left > 2000 - img_right\<close>, that is when the room left of the obstacle exceeds
  the room between the obstacle and x = 2000; otherwise it is routed to the right. The
  choice depends on the obstacle alone; the line's default extent only decides whether it
  collides.
\<close>

theorem C8_both_sides_tie_break:
  assumes "img_top \<le> y_pos + int height" and "y_pos \<le> img_bottom"
    and "x_pos < of_int img_right" and "x_pos + of_nat width > of_int img_left"
    and "wrap_style \<noteq> ''left''" and "wrap_style \<noteq> ''right''"
  shows "avoid_image (Some (img_left, img_top, img_right, img_bottom)) True wrap_style
           y_pos x_pos width height =
         (if img_left > 2000 - img_right then of_int img_left - of_nat width - 20
          else of_int img_right + 20)"
  using assms by (simp add: avoid_image_def)

theorem C8_both_sides_tie_break_witness:
  "(200::int) \<le> 300 + int 100 \<and> (300::int) \<le> 500 \<and> (400::rat) < of_int 1200 \<and>
   (400::rat) + of_nat 600 > of_int 900 \<and> ''both'' \<noteq> ''left'' \<and> ''both'' \<noteq> ''right'' \<and>
   avoid_image (Some (900, 200, 1200, 500)) True ''both'' 300 400 600 100 = 280 \<and>
   avoid_image (Some (400, 200, 700, 500)) True ''both'' 300 400 200 100 = 720"
proof -
  have a: "avoid_image (Some (900, 200, 1200, 500)) True ''both'' 300 400 600 100 = 280"
    using C8_both_sides_tie_break [where img_top = 200 and y_pos = 300 and height = 100 and img_bottom = 500
        and x_pos = 400 and img_right = 1200 and width = 600 and img_left = 900 and wrap_style = "''both''"] by simp
  have b: "avoid_image (Some (400, 200, 700, 500)) True ''both'' 300 400 200 100 = 720"
    using C8_both_sides_tie_break [where img_top = 200 and y_pos = 300 and height = 100 and img_bottom = 500
        and x_pos = 400 and img_right = 700 and width = 200 and img_left = 400 and wrap_style = "''both''"] by simp
  from a b show ?thesis by simp
qed

section \<open>One run of the pipeline: \<^verbatim>\<open>generate_writing\<close>\<close>

subsection \<open>Settings, environment and state\<close>

text \<open>
  The controller's settings a run reads: the Tk variables, widgets and attributes behind
  \<^verbatim>\<open>self.legibilityscale.get()\<close>, \<^verbatim>\<open>self.widthscale.get()\<close>, \<^verbatim>\<open>self.currentstyle\<close>,
  \<^verbatim>\<open>self.stroke_color\<close>, \<^verbatim>\<open>get_max_line_width()\<close>, \<^verbatim>\<open>round(self.lineheightscale.get())\<close>,
  \<^verbatim>\<open>self.orientation\<close>, the image placement variables, \<^verbatim>\<open>self.background_type\<close>,
  \<^verbatim>\<open>self.background_color\<close>, \<^verbatim>\<open>self.background_image_path\<close>, \<^verbatim>\<open>self.export_format\<close> and
  \<^verbatim>\<open>self.jpg_quality\<close>.
  \<open>legibilityscale\<close> and \<open>widthscale\<close> are the values of the two scales;
  \<open>linewidthscale\<close> and \<open>lineheightscale\<close> are the rounded scale values;
  \<open>custom_width_var\<close> is \<open>None\<close> when \<^verbatim>\<open>int(self.custom_width_var.get())\<close> raises;
  \<open>image_path\<close> and \<open>background_image_path\<close> are \<open>None\<close> when the attribute is
  \<^verbatim>\<open>None\<close> or empty, and the chosen path otherwise;
  \<open>image_path_exists\<close> is \<^verbatim>\<open>os.path.exists(self.image_path)\<close>.
\<close>

record settings =
  legibilityscale :: rat
  widthscale :: rat
  currentstyle :: int
  stroke_color :: string
  linewidthscale :: int
  custom_width_var :: "int option"
  lineheightscale :: int
  orientation :: string
  image_enabled :: bool
  image_path :: "string option"
  image_path_exists :: bool
  image_x :: int
  image_y :: int
  image_width :: int
  image_height :: int
  image_wrap_style :: string
  background_type :: string
  background_color :: string
  background_image_path :: "string option"
  export_format :: string
  jpg_quality :: int

text \<open>\<^verbatim>\<open>get_max_line_width\<close> (line 1408).\<close>

definition get_max_line_width :: "settings \<Rightarrow> int" where
  "get_max_line_width s =
     (case custom_width_var s of
        Some custom_value \<Rightarrow> max (linewidthscale s) custom_value
      | None \<Rightarrow> linewidthscale s)"

text \<open>
  The moments at which \<^verbatim>\<open>generate_writing\<close> reads the controller's settings: legibility,
  stroke width and the maximal line width when it prepares the lines (lines 1667, 1668
  and 1677), the style and the stroke colour when line \<open>i\<close> is synthesised (lines 1705 and
  1706), the line spacing after rasterisation (line 1737), the image placement before
  the lines are combined (lines 1743 to 1752), the orientation and the wrap style when
  line \<open>i\<close> is composed (lines 1764 to 1770), the background type, colour and image, the
  export format and the JPG quality when the page is saved (lines 1796 to 1819).
\<close>

datatype phase =
  AtPrepare | AtSynthesize nat | AtSpacing | AtPlacement | AtCompose nat | AtEncode

text \<open>
  The places where \<^verbatim>\<open>generate_writing\<close> polls \<^verbatim>\<open>self._cancel\<close>: line 1663, line 1693 (before
  line \<open>i\<close> is synthesised), line 1719 (before line \<open>i\<close> is rasterised), line 1735 and
  line 1781.
\<close>

datatype checkpoint =
  BeforePrepare | BeforeSynthesize nat | BeforeRasterize nat | BeforeCombine | BeforeTrim

text \<open>
  The entries of \<^verbatim>\<open>self._errors\<close>. An entry for a line carries the number the message
  shows, \<open>i + 1\<close>, and the text of the exception:
  \<^verbatim>\<open>f"Synthesize line {i+1}: {e}"\<close>, \<^verbatim>\<open>f"Rasterize line {i+1}: {e}"\<close>,
  \<^verbatim>\<open>f"Image placement: {e}"\<close>, \<^verbatim>\<open>f"Background image: {e}"\<close>, \<^verbatim>\<open>f"Saving output file: {e}"\<close>.
\<close>

datatype warning =
  SynthesizeLine nat string
| RasterizeLine nat string
| ImagePlacement string
| BackgroundImage string
| SavingOutputFile string


text \<open>
  What a run meets outside \<^verbatim>\<open>gui.py\<close>. \<open>fileid\<close> is the random run identifier;
  \<open>live p\<close> are the controller's settings at the moment \<open>p\<close>; \<open>cancel_flag c\<close> is the
  value of \<^verbatim>\<open>self._cancel\<close> the poll at \<open>c\<close> reads. The other fields are the outcomes of
  the calls into modules that are not part of \<^verbatim>\<open>gui.py\<close> (\<^verbatim>\<open>demo.Hand\<close>, \<^verbatim>\<open>svg2png\<close>,
  PIL, reportlab), each \<open>None\<close> or \<open>Inr\<close> when the call returns and the text of the
  exception when it raises: \<open>hand_write i line\<close> for \<^verbatim>\<open>self.hand.write\<close> on line \<open>i\<close>,
  \<open>svg2png i\<close> for the conversion of the drawing of line \<open>i\<close> (the size of the raster it
  writes), \<open>placed_image\<close> for opening, resizing and pasting the placed image,
  \<open>fulltrim\<close> for \<^verbatim>\<open>fulltrim(canvas)\<close>, \<open>background_image\<close> for loading the background
  image, \<open>save_output\<close> for writing the output file.
\<close>

record env =
  fileid :: string
  live :: "phase \<Rightarrow> settings"
  cancel_flag :: "checkpoint \<Rightarrow> bool"
  hand_write :: "nat \<Rightarrow> string \<Rightarrow> string option"
  svg2png :: "nat \<Rightarrow> string + nat \<times> nat"
  placed_image :: "string option"
  fulltrim :: "string option"
  background_image :: "string option"
  save_output :: "string option"
  PDF_AVAILABLE :: bool

text \<open>
  What a drawing \<^verbatim>\<open>{i}.svg\<close> holds: the arguments \<^verbatim>\<open>self.hand.write\<close> was called with
  (lines 1701 to 1708). \<open>drawn_legibility\<close> is the square of the bias,
  \<^verbatim>\<open>self.legibilityscale.get()/100\<close>, of which \<^verbatim>\<open>math.sqrt\<close> gives the bias itself.
\<close>

record drawing =
  drawn_line :: string
  drawn_legibility :: rat
  drawn_style :: int
  drawn_color :: string
  drawn_width :: rat

text \<open>
  What a raster \<^verbatim>\<open>{i}.png\<close> holds: its width and height, and the drawing it was converted
  from, \<open>None\<close> for the blank raster of line 1728.
\<close>

record raster =
  raster_size :: "nat \<times> nat"
  raster_ink :: "drawing option"

text \<open>
  The files of a temporary directory: the drawings \<^verbatim>\<open>{i}.svg\<close> and the rasters
  \<^verbatim>\<open>{i}.png\<close>.
\<close>

record tempdir_files =
  svg_files :: "nat \<Rightarrow> drawing option"
  png_files :: "nat \<Rightarrow> raster option"

text \<open>
  The composed page: the height of the canvas, the path and the bounds of the placed
  image if one was pasted, and for every line pasted its index, its raster and its
  position, in pasting order.
\<close>

record page =
  canvas_height :: int
  placed_path :: "string option"
  placed_bounds :: "bounds option"
  pastes :: "(nat \<times> raster \<times> int \<times> int) list"

text \<open>
  What is behind the page in the output file: nothing, a colour (line 1802), or the
  background image of the given path (line 1805).
\<close>

datatype background = Transparent | Colour string | Picture string

text \<open>
  An output file: its path, the page, the background and, for a JPG file, the quality it
  was encoded with.
\<close>

record output_file =
  file_path :: string
  file_page :: page
  file_background :: background
  file_quality :: "int option"

text \<open>
  The state a run works on: the fields of \<^verbatim>\<open>MyWindow\<close> it touches and the file system.
  \<open>self_tempdir\<close> is \<open>None\<close> while the attribute \<^verbatim>\<open>self.tempdir\<close> does not exist;
  \<open>generatedialog\<close> says whether the progress dialog exists, \<open>log_btn\<close> whether the
  log button is shown; \<open>generatebutton\<close>, \<open>queue_buttons\<close> (add, remove, clear) and
  \<open>process_queue_btn\<close> say whether the buttons are enabled; \<open>preview_info\<close> holds
  \<^verbatim>\<open>show_preview\<close> and \<^verbatim>\<open>output_files\<close>; \<open>dirs\<close> are the temporary directories on disk
  and \<open>outputs\<close> the files written under \<^verbatim>\<open>outputs/\<close>.
\<close>

record world =
  self_text :: string
  text_queue :: "queue_item list"
  processing_queue :: bool
  current_queue_index :: nat
  self_errors :: "warning list"
  self_tempdir :: "string option"
  generatedialog :: bool
  log_btn :: bool
  generatebutton :: bool
  queue_buttons :: bool
  process_queue_btn :: bool
  preview_info :: "(bool \<times> string list) option"
  dirs :: "string \<Rightarrow> tempdir_files option"
  outputs :: "output_file list"

text \<open>How a run ends: it returns after saving, it bails out on cancellation, or an exception leaves it.\<close>

datatype run_end = Done | Bailed | Raised py_exception

subsection \<open>Helpers\<close>

text \<open>\<^verbatim>\<open>str.splitlines()\<close> for code points below 256; the first argument is the line read so far.\<close>

fun splitlines_from :: "string \<Rightarrow> string \<Rightarrow> string list" where
  "splitlines_from cur [] = (if cur = [] then [] else [cur])"
| "splitlines_from cur (c # cs) =
     (if c = CHR 0x0D then
        (case cs of
           [] \<Rightarrow> [cur]
         | d # ds \<Rightarrow> if d = CHR 0x0A then cur # splitlines_from [] ds else cur # splitlines_from [] cs)
      else if c \<in> set [CHR 0x0A, CHR 0x0B, CHR 0x0C, CHR 0x1C, CHR 0x1D, CHR 0x1E, CHR 0x85]
        then cur # splitlines_from [] cs
      else splitlines_from (cur @ [c]) cs)"

definition py_splitlines :: "string \<Rightarrow> string list" where
  "py_splitlines t = splitlines_from [] t"

text \<open>\<^verbatim>\<open>str(n)\<close> for a natural number.\<close>

fun str_nat :: "nat \<Rightarrow> string" where
  "str_nat n =
     (if n < 10 then [''0123456789'' ! n]
      else str_nat (n div 10) @ [''0123456789'' ! (n mod 10)])"

declare str_nat.simps [simp del]

text \<open>\<^verbatim>\<open>str.isalnum\<close> on one character, for code points below 256.\<close>

definition py_isalnum :: "char \<Rightarrow> bool" where
  "py_isalnum c = (re_word c \<and> c \<noteq> CHR ''_'')"

text \<open>\<^verbatim>\<open>enable_controls\<close> (line 1533).\<close>

definition enable_controls :: "world \<Rightarrow> world" where
  "enable_controls w =
     w\<lparr>generatebutton := True, queue_buttons := True,
       process_queue_btn := (if length (text_queue w) > 0 then True else process_queue_btn w)\<rparr>"

text \<open>\<^verbatim>\<open>disable_controls\<close> (line 1525).\<close>

definition disable_controls :: "world \<Rightarrow> world" where
  "disable_controls w =
     w\<lparr>generatebutton := False, queue_buttons := False, process_queue_btn := False\<rparr>"

text \<open>\<^verbatim>\<open>shutil.rmtree(d, ignore_errors=True)\<close> and \<^verbatim>\<open>os.makedirs(d, exist_ok=True)\<close>.\<close>

definition rmtree :: "string \<Rightarrow> world \<Rightarrow> world" where
  "rmtree d w = w\<lparr>dirs := (dirs w)(d := None)\<rparr>"

definition makedirs :: "string \<Rightarrow> world \<Rightarrow> world" where
  "makedirs d w =
     (case dirs w d of
        None \<Rightarrow> w\<lparr>dirs := (dirs w)(d \<mapsto> \<lparr>svg_files = (\<lambda>i. None), png_files = (\<lambda>i. None)\<rparr>)\<rparr>
      | Some f \<Rightarrow> w)"

text \<open>
  \<^verbatim>\<open>bail_out\<close> (lines 1646 to 1657). When \<^verbatim>\<open>self.tempdir\<close> does not exist the
  \<^verbatim>\<open>AttributeError\<close> is swallowed by the \<^verbatim>\<open>except\<close>.
\<close>

definition bail_out :: "bool \<Rightarrow> world \<Rightarrow> world" where
  "bail_out is_queue_item w =
     (let w1 = (case self_tempdir w of None \<Rightarrow> w | Some d \<Rightarrow> rmtree d w);
          w2 = w1\<lparr>generatedialog := False\<rparr>
      in if \<not> is_queue_item then w2\<lparr>generatebutton := True\<rparr> else enable_controls w2)"

text \<open>\<^verbatim>\<open>self._errors.append(...)\<close>.\<close>

definition add_error :: "warning \<Rightarrow> world \<Rightarrow> world" where
  "add_error e w = w\<lparr>self_errors := self_errors w @ [e]\<rparr>"

text \<open>The files of \<^verbatim>\<open>self.tempdir\<close>, if the directory exists, and their replacement.\<close>

definition temp_files :: "world \<Rightarrow> tempdir_files option" where
  "temp_files w = (case self_tempdir w of None \<Rightarrow> None | Some d \<Rightarrow> dirs w d)"

definition put_temp_files :: "tempdir_files \<Rightarrow> world \<Rightarrow> world" where
  "put_temp_files f w =
     (case self_tempdir w of None \<Rightarrow> w | Some d \<Rightarrow> w\<lparr>dirs := (dirs w)(d \<mapsto> f)\<rparr>)"

subsection \<open>Synthesis and rasterisation\<close>

text \<open>
  The arguments of the call of \<^verbatim>\<open>self.hand.write\<close> for line \<open>i\<close> (lines 1701 to 1708).
  \<^verbatim>\<open>bias\<close> and \<^verbatim>\<open>width\<close> are the locals of lines 1667 and 1668, computed from the
  settings when the lines are prepared; \<^verbatim>\<open>self.currentstyle\<close> and \<^verbatim>\<open>self.stroke_color\<close> are
  read at the call.
\<close>

definition hand_write_args :: "env \<Rightarrow> nat \<Rightarrow> string \<Rightarrow> drawing" where
  "hand_write_args E i line =
     \<lparr>drawn_line = line,
      drawn_legibility = legibilityscale (live E AtPrepare) / 100,
      drawn_style = currentstyle (live E (AtSynthesize i)),
      drawn_color = stroke_color (live E (AtSynthesize i)),
      drawn_width = widthscale (live E AtPrepare) / 4 + 3 / 5\<rparr>"

text \<open>
  Modelled from the spec: \<^verbatim>\<open>Hand.write\<close> of the module \<^verbatim>\<open>demo\<close>, which is not among the
  sources. The spec gives \<^verbatim>\<open>write(outputHandle, line, ...) -> VectorDrawing\<close>, which may
  fail per call: when the call returns, the drawing \<^verbatim>\<open>{i}.svg\<close>, made from the arguments
  of the call, is in the temporary directory; when it raises, no drawing is written. The
  \<^verbatim>\<open>try\<close> of lines 1700 to 1710 turns the exception into an entry of the log.
\<close>

definition synthesize_line :: "env \<Rightarrow> nat \<Rightarrow> string \<Rightarrow> world \<Rightarrow> world" where
  "synthesize_line E i line w =
     (case hand_write E i line of
        Some e \<Rightarrow> add_error (SynthesizeLine (i + 1) e) w
      | None \<Rightarrow>
          (case temp_files w of
             None \<Rightarrow> add_error (SynthesizeLine (i + 1) ''No such file or directory'') w
           | Some f \<Rightarrow>
               put_temp_files (f\<lparr>svg_files := (svg_files f)(i \<mapsto> hand_write_args E i line)\<rparr>) w))"

text \<open>
  The loop of lines 1692 to 1712, from line \<open>i\<close> on. The result says whether the run
  bailed out.
\<close>

fun synth_loop :: "env \<Rightarrow> bool \<Rightarrow> nat \<Rightarrow> string list \<Rightarrow> world \<Rightarrow> world \<times> bool" where
  "synth_loop E is_queue_item i [] w = (w, False)"
| "synth_loop E is_queue_item i (line # lines) w =
     (if cancel_flag E (BeforeSynthesize i) then (bail_out is_queue_item w, True)
      else synth_loop E is_queue_item (Suc i) lines (synthesize_line E i line w))"

text \<open>
  Modelled from the spec: \<^verbatim>\<open>svg2png\<close> of the module \<^verbatim>\<open>svg2png\<close>, which is not among the
  sources. The spec gives \<^verbatim>\<open>vectorToRaster(VectorDrawing) -> RasterImage\<close>, which may
  fail: the conversion needs the drawing \<^verbatim>\<open>{i}.svg\<close> and raises when it is missing; when
  it returns, the raster \<^verbatim>\<open>{i}.png\<close> of that drawing is in the temporary directory; when
  it raises, no raster is written. A line that is one space gets a blank raster of 2000
  by 120 pixels instead (line 1728). The \<^verbatim>\<open>try\<close> of lines 1726 to 1732 turns an exception into an entry
  of the log.
\<close>

definition rasterize_line :: "env \<Rightarrow> nat \<Rightarrow> string \<Rightarrow> world \<Rightarrow> world" where
  "rasterize_line E i line w =
     (case temp_files w of
        None \<Rightarrow> add_error (RasterizeLine (i + 1) ''No such file or directory'') w
      | Some f \<Rightarrow>
          if line = '' '' then
            put_temp_files
              (f\<lparr>png_files := (png_files f)(i \<mapsto> \<lparr>raster_size = (2000, 120), raster_ink = None\<rparr>)\<rparr>) w
          else
            (case svg_files f i of
               None \<Rightarrow> add_error (RasterizeLine (i + 1) ''No such file or directory'') w
             | Some d \<Rightarrow>
                 (case svg2png E i of
                    Inl e \<Rightarrow> add_error (RasterizeLine (i + 1) e) w
                  | Inr sz \<Rightarrow>
                      put_temp_files
                        (f\<lparr>png_files := (png_files f)(i \<mapsto> \<lparr>raster_size = sz, raster_ink = Some d\<rparr>)\<rparr>)
                        w)))"

text \<open>The loop of lines 1718 to 1733, from line \<open>i\<close> on.\<close>

fun raster_loop :: "env \<Rightarrow> bool \<Rightarrow> nat \<Rightarrow> string list \<Rightarrow> world \<Rightarrow> world \<times> bool" where
  "raster_loop E is_queue_item i [] w = (w, False)"
| "raster_loop E is_queue_item i (line # lines) w =
     (if cancel_flag E (BeforeRasterize i) then (bail_out is_queue_item w, True)
      else raster_loop E is_queue_item (Suc i) lines (rasterize_line E i line w))"

subsection \<open>Composition\<close>

text \<open>
  Lines 1743 to 1758: the bounds of the placed image, \<open>None\<close> when no image is placed or
  when placing it raised, and the state with the log entry in the latter case. The image
  pasted is the one at \<^verbatim>\<open>self.image_path\<close>, resized to the width and height of the bounds.
\<close>

definition place_image :: "env \<Rightarrow> world \<Rightarrow> bounds option \<times> world" where
  "place_image E w =
     (let P = live E AtPlacement in
      if image_enabled P \<and> image_path P \<noteq> None \<and> image_path_exists P then
        (case placed_image E of
           None \<Rightarrow> (Some (image_x P, image_y P, image_x P + image_width P, image_y P + image_height P), w)
         | Some e \<Rightarrow> (None, add_error (ImagePlacement e) w))
      else (None, w))"

text \<open>
  The loop of lines 1760 to 1779 over the given line indices: the pastes, or the
  \<^verbatim>\<open>FileNotFoundError\<close> of \<^verbatim>\<open>Image.open\<close> for the first line whose raster is missing.
  Nothing catches that exception.
\<close>

fun compose_loop ::
  "env \<Rightarrow> (nat \<Rightarrow> raster option) \<Rightarrow> int \<Rightarrow> bounds option \<Rightarrow> bool \<Rightarrow> nat list \<Rightarrow>
     py_exception + (nat \<times> raster \<times> int \<times> int) list" where
  "compose_loop E pngs line_spacing image_bounds use_image_placement [] = Inr []"
| "compose_loop E pngs line_spacing image_bounds use_image_placement (i # idxs) =
     (case pngs i of
        None \<Rightarrow> Inl (FileNotFoundError i)
      | Some line_img \<Rightarrow>
          (case compose_loop E pngs line_spacing image_bounds use_image_placement idxs of
             Inl e \<Rightarrow> Inl e
           | Inr ps \<Rightarrow>
               Inr ((i, line_img,
                     line_position (orientation (live E (AtCompose i)))
                       (image_wrap_style (live E (AtCompose i)))
                       line_spacing image_bounds use_image_placement i (raster_size line_img)) # ps)))"

subsection \<open>Saving\<close>

text \<open>Lines 1787 to 1791: the suffix of the output file name.\<close>

definition file_suffix :: "bool \<Rightarrow> world \<Rightarrow> py_exception + string" where
  "file_suffix is_queue_item w =
     (if is_queue_item then
        (if current_queue_index w < length (text_queue w) then
           (let name = item_name (text_queue w ! current_queue_index w);
                safe_name = filter (\<lambda>c. py_isalnum c \<or> c \<in> set ''-_ '') name
            in Inr (if safe_name \<noteq> [] then ''-'' @ safe_name
                    else ''-queue-'' @ str_nat (current_queue_index w + 1)))
         else Inl IndexError)
      else Inr [])"

text \<open>
  Lines 1796 to 1811: the background. Only loading a background image can fail; the
  failure becomes an entry of the log and the page stays on the colour. The colour is
  \<^verbatim>\<open>'white'\<close> for the background type \<^verbatim>\<open>white\<close> and \<^verbatim>\<open>self.background_color\<close> otherwise,
  taken to be a colour PIL accepts.
\<close>

definition background_step :: "env \<Rightarrow> world \<Rightarrow> background \<times> world" where
  "background_step E w =
     (let bg_type = background_type (live E AtEncode) in
      if bg_type \<noteq> ''transparent'' then
        (let bg_color = (if bg_type = ''white'' then ''white''
                         else background_color (live E AtEncode))
         in if bg_type = ''image'' then
              (case background_image_path (live E AtEncode) of
                 None \<Rightarrow> (Colour bg_color, w)
               | Some bg_path \<Rightarrow>
                   (case background_image E of
                      Some e \<Rightarrow> (Colour bg_color, add_error (BackgroundImage e) w)
                    | None \<Rightarrow> (Picture bg_path, w)))
            else (Colour bg_color, w))
      else (Transparent, w))"

text \<open>The branch of lines 1815 to 1823 the export format selects: the extension of the output file.\<close>

definition output_extension :: "env \<Rightarrow> string option" where
  "output_extension E =
     (let fmt = export_format (live E AtEncode) in
      if fmt = ''png'' then Some ''.png''
      else if fmt = ''jpg'' then Some ''.jpg''
      else if fmt = ''pdf'' \<and> PDF_AVAILABLE E then Some ''.pdf''
      else None)"

text \<open>
  Lines 1813 to 1825: the output file is written, or the exception of the writer becomes
  an entry of the log. Only the JPG branch reads \<^verbatim>\<open>self.jpg_quality\<close> (line 1819). The
  result is \<^verbatim>\<open>output_files\<close> and the state.
\<close>

definition write_output ::
  "env \<Rightarrow> string \<Rightarrow> page \<Rightarrow> background \<Rightarrow> world \<Rightarrow> string list \<times> world" where
  "write_output E output_path pg bg w =
     (case output_extension E of
        None \<Rightarrow> ([], w)
      | Some x \<Rightarrow>
          (case save_output E of
             Some e \<Rightarrow> ([], add_error (SavingOutputFile e) w)
           | None \<Rightarrow>
               ([output_path @ x],
                w\<lparr>outputs := outputs w @
                     [\<lparr>file_path = output_path @ x, file_page = pg, file_background = bg,
                       file_quality = (if x = ''.jpg'' then Some (jpg_quality (live E AtEncode))
                                       else None)\<rparr>]\<rparr>)))"

text \<open>
  Lines 1829 to 1846: the preview information, the removal of the temporary directory
  (line 1836), and the log button or the end of the dialog.
\<close>

definition finish_run :: "bool \<Rightarrow> string list \<Rightarrow> world \<Rightarrow> world" where
  "finish_run is_queue_item output_files w =
     (let w3 = w\<lparr>preview_info :=
                   Some (\<not> is_queue_item \<or>
                         int (current_queue_index w) = int (length (text_queue w)) - 1,
                         output_files)\<rparr>;
          w4 = (case self_tempdir w3 of None \<Rightarrow> w3 | Some d \<Rightarrow> rmtree d w3)
      in if self_errors w4 \<noteq> [] then w4\<lparr>log_btn := True\<rparr> else w4\<lparr>generatedialog := False\<rparr>)"

text \<open>
  Lines 1783 to 1846: trim, output path, background, output file and the end of the run.
  Nothing catches an exception of \<^verbatim>\<open>fulltrim\<close>.
\<close>

definition save_page :: "env \<Rightarrow> bool \<Rightarrow> page \<Rightarrow> world \<Rightarrow> world \<times> run_end" where
  "save_page E is_queue_item pg w =
     (case fulltrim E of
        Some e \<Rightarrow> (w, Raised (OtherException e))
      | None \<Rightarrow>
          (case file_suffix is_queue_item w of
             Inl e \<Rightarrow> (w, Raised e)
           | Inr suffix \<Rightarrow>
               (let bg = background_step E w;
                    written = write_output E (''outputs/'' @ fileid E @ suffix) pg (fst bg) (snd bg)
                in (finish_run is_queue_item (fst written) (snd written), Done))))"

text \<open>
  Lines 1737 to 1781: line spacing, canvas, placed image, composition of the \<open>n\<close> lines
  and the last poll of the cancel flag; then the page is saved.
\<close>

definition combine_lines :: "env \<Rightarrow> bool \<Rightarrow> nat \<Rightarrow> world \<Rightarrow> world \<times> run_end" where
  "combine_lines E is_queue_item n w =
     (let line_spacing = lineheightscale (live E AtSpacing);
          use_image_placement = image_enabled (live E AtPlacement);
          placed = place_image E w;
          pngs = (case temp_files (snd placed) of None \<Rightarrow> (\<lambda>i. None) | Some f \<Rightarrow> png_files f)
      in case compose_loop E pngs line_spacing (fst placed) use_image_placement [0..<n] of
           Inl e \<Rightarrow> (snd placed, Raised e)
         | Inr ps \<Rightarrow>
             if cancel_flag E BeforeTrim then (bail_out is_queue_item (snd placed), Bailed)
             else save_page E is_queue_item
                    \<lparr>canvas_height = 400 + line_spacing * int n,
                      placed_path = (if fst placed = None then None
                                     else image_path (live E AtPlacement)),
                      placed_bounds = fst placed, pastes = ps\<rparr>
                    (snd placed))"

subsection \<open>The run\<close>

text \<open>
  \<^verbatim>\<open>generate_writing\<close>, lines 1659 to 1846: one run on the text \<^verbatim>\<open>self.text\<close>. The division
  \<^verbatim>\<open>60/len(synthesized_lines)\<close> of line 1687 raises when no line is left to synthesise.
  What follows the run for a queue item (lines 1848 to 1857) is part of
  \<open>process_next_queue_item\<close> below.
\<close>

definition generate_writing_run :: "env \<Rightarrow> bool \<Rightarrow> world \<Rightarrow> world \<times> run_end" where
  "generate_writing_run E is_queue_item w =
     (if cancel_flag E BeforePrepare then (bail_out is_queue_item w, Bailed)
      else
        (let d = ''handsynth-temp-'' @ fileid E;
             w1 = makedirs d (w\<lparr>self_tempdir := Some d\<rparr>)
         in case prepare_lines (get_max_line_width (live E AtPrepare)) (py_splitlines (self_text w)) of
              Inl e \<Rightarrow> (w1, Raised e)
            | Inr synthesized_lines \<Rightarrow>
                if synthesized_lines = [] then (w1, Raised ZeroDivisionError)
                else
                  (let s = synth_loop E is_queue_item 0 synthesized_lines w1 in
                   if snd s then (fst s, Bailed)
                   else
                     (let r = raster_loop E is_queue_item 0 synthesized_lines (fst s) in
                      if snd r then (fst r, Bailed)
                      else if cancel_flag E BeforeCombine then (bail_out is_queue_item (fst r), Bailed)
                      else combine_lines E is_queue_item (length synthesized_lines) (fst r)))))"

text \<open>
  \<^verbatim>\<open>generate_dialog\<close> followed by \<^verbatim>\<open>generate_writing\<close> for a text typed into the window
  (\<^verbatim>\<open>is_queue_item\<close> false): the cancel flag and the log are reset, the dialog opens, the
  run works on the validated text, and line 1859 enables the button again when the run
  returns.
\<close>

definition generate_writing_direct :: "env \<Rightarrow> string \<Rightarrow> world \<Rightarrow> world \<times> run_end" where
  "generate_writing_direct E txt w =
     (let w1 = w\<lparr>self_errors := [], generatebutton := False, self_text := txt,
                 generatedialog := True, log_btn := False\<rparr>;
          r = generate_writing_run E False w1
      in if snd r = Done then ((fst r)\<lparr>generatebutton := True\<rparr>, Done) else r)"


section \<open>Properties of a run\<close>

subsection \<open>What the stages leave unchanged\<close>

text \<open>
  Which fields of the state each step of a run leaves as they are. The queue and its index
  are never written by a run; the files under \<^verbatim>\<open>outputs/\<close> change only when a page is saved.
\<close>

lemma frame_enable_controls [simp]:
  "text_queue (enable_controls w) = text_queue w"
  "current_queue_index (enable_controls w) = current_queue_index w"
  "outputs (enable_controls w) = outputs w"
  "self_tempdir (enable_controls w) = self_tempdir w"
  "dirs (enable_controls w) = dirs w"
  by (simp_all add: enable_controls_def)

lemma frame_rmtree [simp]:
  "text_queue (rmtree d w) = text_queue w"
  "current_queue_index (rmtree d w) = current_queue_index w"
  "outputs (rmtree d w) = outputs w"
  "self_tempdir (rmtree d w) = self_tempdir w"
  "dirs (rmtree d w) d = None"
  by (simp_all add: rmtree_def)

lemma frame_makedirs [simp]:
  "text_queue (makedirs d w) = text_queue w"
  "current_queue_index (makedirs d w) = current_queue_index w"
  "outputs (makedirs d w) = outputs w"
  "self_tempdir (makedirs d w) = self_tempdir w"
  by (simp_all add: makedirs_def split: option.splits)

lemma frame_bail_out [simp]:
  "text_queue (bail_out q w) = text_queue w"
  "current_queue_index (bail_out q w) = current_queue_index w"
  "outputs (bail_out q w) = outputs w"
  "self_tempdir (bail_out q w) = self_tempdir w"
  by (simp_all add: bail_out_def Let_def split: option.splits)

lemma bail_out_removes_tempdir:
  "self_tempdir w = Some d \<Longrightarrow> dirs (bail_out q w) d = None"
  by (simp add: bail_out_def Let_def)

lemma frame_add_error [simp]:
  "text_queue (add_error e w) = text_queue w"
  "current_queue_index (add_error e w) = current_queue_index w"
  "outputs (add_error e w) = outputs w"
  "self_tempdir (add_error e w) = self_tempdir w"
  "dirs (add_error e w) = dirs w"
  by (simp_all add: add_error_def)

lemma frame_put_temp_files [simp]:
  "text_queue (put_temp_files f w) = text_queue w"
  "current_queue_index (put_temp_files f w) = current_queue_index w"
  "outputs (put_temp_files f w) = outputs w"
  "self_tempdir (put_temp_files f w) = self_tempdir w"
  by (simp_all add: put_temp_files_def split: option.splits)

lemma frame_synthesize_line [simp]:
  "text_queue (synthesize_line E i line w) = text_queue w"
  "current_queue_index (synthesize_line E i line w) = current_queue_index w"
  "outputs (synthesize_line E i line w) = outputs w"
  "self_tempdir (synthesize_line E i line w) = self_tempdir w"
  by (simp_all add: synthesize_line_def split: option.splits)

lemma frame_rasterize_line [simp]:
  "text_queue (rasterize_line E i line w) = text_queue w"
  "current_queue_index (rasterize_line E i line w) = current_queue_index w"
  "outputs (rasterize_line E i line w) = outputs w"
  "self_tempdir (rasterize_line E i line w) = self_tempdir w"
  by (simp_all add: rasterize_line_def split: option.splits sum.splits)

lemma frame_synth_loop [simp]:
  "text_queue (fst (synth_loop E q i ls w)) = text_queue w"
  "current_queue_index (fst (synth_loop E q i ls w)) = current_queue_index w"
  "outputs (fst (synth_loop E q i ls w)) = outputs w"
  "self_tempdir (fst (synth_loop E q i ls w)) = self_tempdir w"
  by (induction ls arbitrary: i w; simp)+

lemma frame_raster_loop [simp]:
  "text_queue (fst (raster_loop E q i ls w)) = text_queue w"
  "current_queue_index (fst (raster_loop E q i ls w)) = current_queue_index w"
  "outputs (fst (raster_loop E q i ls w)) = outputs w"
  "self_tempdir (fst (raster_loop E q i ls w)) = self_tempdir w"
  by (induction ls arbitrary: i w; simp)+

lemma synth_loop_bailed_removes_tempdir:
  "snd (synth_loop E q i ls w) \<Longrightarrow> self_tempdir w = Some d \<Longrightarrow>
   dirs (fst (synth_loop E q i ls w)) d = None"
  by (induction ls arbitrary: i w) (auto simp: bail_out_removes_tempdir split: if_splits)

lemma raster_loop_bailed_removes_tempdir:
  "snd (raster_loop E q i ls w) \<Longrightarrow> self_tempdir w = Some d \<Longrightarrow>
   dirs (fst (raster_loop E q i ls w)) d = None"
  by (induction ls arbitrary: i w) (auto simp: bail_out_removes_tempdir split: if_splits)

text \<open>Each loop polls the cancel flag before every line, so it sees a flag set before any of its lines.\<close>

lemma synth_loop_sees_cancel:
  "k < length ls \<Longrightarrow> cancel_flag E (BeforeSynthesize (i + k)) \<Longrightarrow> snd (synth_loop E q i ls w)"
proof (induction ls arbitrary: i k w)
  case Nil
  then show ?case by simp
next
  case (Cons line ls)
  show ?case
  proof (cases k)
    case 0
    with Cons.prems show ?thesis by simp
  next
    case (Suc j)
    with Cons.prems have "j < length ls" "cancel_flag E (BeforeSynthesize (Suc i + j))" by simp_all
    from Cons.IH [OF this] show ?thesis by simp
  qed
qed

lemma raster_loop_sees_cancel:
  "k < length ls \<Longrightarrow> cancel_flag E (BeforeRasterize (i + k)) \<Longrightarrow> snd (raster_loop E q i ls w)"
proof (induction ls arbitrary: i k w)
  case Nil
  then show ?case by simp
next
  case (Cons line ls)
  show ?case
  proof (cases k)
    case 0
    with Cons.prems show ?thesis by simp
  next
    case (Suc j)
    with Cons.prems have "j < length ls" "cancel_flag E (BeforeRasterize (Suc i + j))" by simp_all
    from Cons.IH [OF this] show ?thesis by simp
  qed
qed

lemma frame_place_image [simp]:
  "text_queue (snd (place_image E w)) = text_queue w"
  "current_queue_index (snd (place_image E w)) = current_queue_index w"
  "outputs (snd (place_image E w)) = outputs w"
  "self_tempdir (snd (place_image E w)) = self_tempdir w"
  "dirs (snd (place_image E w)) = dirs w"
  by (simp_all add: place_image_def Let_def split: option.splits)

lemma frame_background_step [simp]:
  "text_queue (snd (background_step E w)) = text_queue w"
  "current_queue_index (snd (background_step E w)) = current_queue_index w"
  "outputs (snd (background_step E w)) = outputs w"
  "self_tempdir (snd (background_step E w)) = self_tempdir w"
  "dirs (snd (background_step E w)) = dirs w"
  by (simp_all add: background_step_def Let_def split: option.splits)

lemma frame_write_output [simp]:
  "text_queue (snd (write_output E p pg bg w)) = text_queue w"
  "current_queue_index (snd (write_output E p pg bg w)) = current_queue_index w"
  "self_tempdir (snd (write_output E p pg bg w)) = self_tempdir w"
  "dirs (snd (write_output E p pg bg w)) = dirs w"
  by (simp_all add: write_output_def split: option.splits)

lemma frame_finish_run [simp]:
  "text_queue (finish_run q fs w) = text_queue w"
  "current_queue_index (finish_run q fs w) = current_queue_index w"
  "outputs (finish_run q fs w) = outputs w"
  "self_tempdir (finish_run q fs w) = self_tempdir w"
  by (simp_all add: finish_run_def Let_def split: option.splits)

lemma finish_run_removes_tempdir:
  "self_tempdir w = Some d \<Longrightarrow> dirs (finish_run q fs w) d = None"
  by (simp add: finish_run_def Let_def)

lemma frame_save_page [simp]:
  "text_queue (fst (save_page E q pg w)) = text_queue w"
  "current_queue_index (fst (save_page E q pg w)) = current_queue_index w"
  "self_tempdir (fst (save_page E q pg w)) = self_tempdir w"
  by (simp_all add: save_page_def Let_def split: option.splits sum.splits)

lemma save_page_not_done:
  "snd (save_page E q pg w) \<noteq> Done \<Longrightarrow> fst (save_page E q pg w) = w"
  by (simp add: save_page_def Let_def split: option.splits sum.splits)

lemma save_page_not_bailed: "snd (save_page E q pg w) \<noteq> Bailed"
  by (simp add: save_page_def Let_def split: option.splits sum.splits)

lemma save_page_done_removes_tempdir:
  "snd (save_page E q pg w) = Done \<Longrightarrow> self_tempdir w = Some d \<Longrightarrow>
   dirs (fst (save_page E q pg w)) d = None"
  by (auto simp: save_page_def Let_def finish_run_removes_tempdir split: option.splits sum.splits)

lemma frame_combine_lines [simp]:
  "text_queue (fst (combine_lines E q n w)) = text_queue w"
  "current_queue_index (fst (combine_lines E q n w)) = current_queue_index w"
  "self_tempdir (fst (combine_lines E q n w)) = self_tempdir w"
  by (simp_all add: combine_lines_def Let_def split: sum.splits)

lemma combine_lines_not_done:
  "snd (combine_lines E q n w) \<noteq> Done \<Longrightarrow> outputs (fst (combine_lines E q n w)) = outputs w"
  by (auto simp: combine_lines_def Let_def save_page_not_done split: sum.splits if_splits)

lemma combine_lines_removes_tempdir:
  "snd (combine_lines E q n w) = Done \<or> snd (combine_lines E q n w) = Bailed \<Longrightarrow>
   self_tempdir w = Some d \<Longrightarrow> dirs (fst (combine_lines E q n w)) d = None"
  by (auto simp: combine_lines_def Let_def save_page_done_removes_tempdir save_page_not_bailed
        bail_out_removes_tempdir split: sum.splits if_splits)

lemma frame_generate_writing_run [simp]:
  "text_queue (fst (generate_writing_run E q w)) = text_queue w"
  "current_queue_index (fst (generate_writing_run E q w)) = current_queue_index w"
  by (simp_all add: generate_writing_run_def Let_def split: sum.splits)

lemma run_not_done_keeps_outputs:
  "snd (generate_writing_run E q w) \<noteq> Done \<Longrightarrow>
   outputs (fst (generate_writing_run E q w)) = outputs w"
  by (auto simp: generate_writing_run_def Let_def combine_lines_not_done split: sum.splits if_splits)

lemma run_removes_tempdir:
  assumes "\<not> cancel_flag E BeforePrepare"
    and "snd (generate_writing_run E q w) = Done \<or> snd (generate_writing_run E q w) = Bailed"
  shows "dirs (fst (generate_writing_run E q w)) (''handsynth-temp-'' @ fileid E) = None"
  using assms
  by (auto simp: generate_writing_run_def Let_def combine_lines_removes_tempdir
        synth_loop_bailed_removes_tempdir raster_loop_bailed_removes_tempdir bail_out_removes_tempdir
        split: sum.splits if_splits)


subsection \<open>One line that fails synthesis\<close>

text \<open>
  The two loops when the synthesis of exactly one line, \<open>k\<close>, raises: the loops run to
  their end, each adds one entry for line \<open>k + 1\<close> to the log, and every other line gets
  its raster.
\<close>

lemma temp_files_add_error [simp]: "temp_files (add_error e w) = temp_files w"
  by (simp add: temp_files_def add_error_def split: option.splits)

lemma self_errors_add_error [simp]: "self_errors (add_error e w) = self_errors w @ [e]"
  by (simp add: add_error_def)

lemma put_temp_files_existing [simp]:
  "temp_files w = Some f \<Longrightarrow> temp_files (put_temp_files g w) = Some g"
  by (auto simp: temp_files_def put_temp_files_def split: option.splits)

lemma self_errors_put_temp_files [simp]: "self_errors (put_temp_files g w) = self_errors w"
  by (simp add: put_temp_files_def split: option.splits)





subsection \<open>A window, an environment and a text to run on\<close>

text \<open>
  The settings of a window as \<^verbatim>\<open>__init__\<close> and the widgets set them (legibility 50, stroke
  width 5, style 0, stroke colour \<^verbatim>\<open>#003264\<close>, line width scale at 42.5, line spacing 80,
  orientation Left, no placed image, white background, PNG, JPG quality 95), the
  state of a window in which nothing has run yet, and an environment in which every call
  succeeds, nobody cancels and nobody touches the settings.
\<close>

definition default_settings :: settings where
  "default_settings =
     \<lparr>legibilityscale = 50, widthscale = 5, currentstyle = 0, stroke_color = ''#003264'',
      linewidthscale = 42, custom_width_var = Some 42, lineheightscale = 80,
      orientation = ''Left'', image_enabled = False, image_path = None,
      image_path_exists = False,
      image_x = 400, image_y = 200, image_width = 300, image_height = 300,
      image_wrap_style = ''both'', background_type = ''white'',
      background_color = ''#FFFFFF'', background_image_path = None,
      export_format = ''png'', jpg_quality = 95\<rparr>"

definition initial_world :: world where
  "initial_world =
     \<lparr>self_text = [], text_queue = [], processing_queue = False, current_queue_index = 0,
      self_errors = [], self_tempdir = None, generatedialog = False, log_btn = False,
      generatebutton = True, queue_buttons = True, process_queue_btn = False,
      preview_info = None, dirs = (\<lambda>d. None), outputs = []\<rparr>"

definition quiet_env :: env where
  "quiet_env =
     \<lparr>fileid = ''RUN001'', live = (\<lambda>p. default_settings), cancel_flag = (\<lambda>c. False),
      hand_write = (\<lambda>i line. None), svg2png = (\<lambda>i. Inr (900, 120)),
      placed_image = None, fulltrim = None, background_image = None, save_output = None,
      PDF_AVAILABLE = False\<rparr>"

text \<open>
  A text of five lines, as \<^verbatim>\<open>generate_dialog\<close> hands it to the run; an environment in which
  the synthesis of the third line (index 2) raises; and one in which the user cancels
  while the third line is synthesised, so that the polls from the fourth line on read the
  flag set.
\<close>

definition five_lines :: string where
  "five_lines = ''one'' @ [CHR 0x0A] @ ''two'' @ [CHR 0x0A] @ ''three'' @ [CHR 0x0A] @
                ''four'' @ [CHR 0x0A] @ ''five'' @ [CHR 0x0A]"

definition line3_fails :: env where
  "line3_fails =
     quiet_env\<lparr>hand_write := (\<lambda>i line. if i = 2 then Some ''synthesis failed'' else None)\<rparr>"

definition cancel_during_line3 :: env where
  "cancel_during_line3 =
     quiet_env\<lparr>cancel_flag :=
       (\<lambda>c. case c of BeforePrepare \<Rightarrow> False | BeforeSynthesize j \<Rightarrow> 3 \<le> j | _ \<Rightarrow> True)\<rparr>"

text \<open>
  C3. Let the run have passed its first poll and prepared \<open>N\<close> lines to synthesise. If
  the cancel flag is set when the run polls it before line \<open>k\<close> of the synthesis loop or of
  the rasterisation loop, for some \<open>k < N\<close>, then the run ends cancelled (it bails out),
  the files under \<^verbatim>\<open>outputs/\<close> are what they were, and the run's temporary directory is
  gone.
\<close>

theorem C3_cancellation_outcome:
  assumes "\<not> cancel_flag E BeforePrepare"
    and "prepare_lines (get_max_line_width (live E AtPrepare)) (py_splitlines (self_text w)) =
           Inr synthesized_lines"
    and "k < length synthesized_lines"
    and "cancel_flag E (BeforeSynthesize k) \<or> cancel_flag E (BeforeRasterize k)"
  shows "snd (generate_writing_run E is_queue_item w) = Bailed \<and>
         outputs (fst (generate_writing_run E is_queue_item w)) = outputs w \<and>
         dirs (fst (generate_writing_run E is_queue_item w)) (''handsynth-temp-'' @ fileid E) = None"
proof -
  let ?w1 = "makedirs (''handsynth-temp-'' @ fileid E) (w\<lparr>self_tempdir := Some (''handsynth-temp-'' @ fileid E)\<rparr>)"
  let ?s = "synth_loop E is_queue_item 0 synthesized_lines ?w1"
  let ?r = "raster_loop E is_queue_item 0 synthesized_lines (fst ?s)"
  from assms(3) have ne: "synthesized_lines \<noteq> []" by auto
  have seen: "snd ?s \<or> snd ?r"
    using assms(4) synth_loop_sees_cancel [OF assms(3), of E 0 is_queue_item ?w1]
      raster_loop_sees_cancel [OF assms(3), of E 0 is_queue_item "fst ?s"]
    by auto
  have bailed: "snd (generate_writing_run E is_queue_item w) = Bailed"
    using assms(1,2) ne seen by (auto simp: generate_writing_run_def Let_def)
  then have "snd (generate_writing_run E is_queue_item w) \<noteq> Done" by simp
  from run_not_done_keeps_outputs [OF this] run_removes_tempdir [OF assms(1)] bailed
  show ?thesis by simp
qed

theorem C3_cancellation_outcome_witness:
  "\<not> cancel_flag cancel_during_line3 BeforePrepare \<and>
   prepare_lines (get_max_line_width (live cancel_during_line3 AtPrepare))
     (py_splitlines (self_text (initial_world\<lparr>self_text := five_lines\<rparr>))) =
     Inr [''one'', ''two'', ''three'', ''four'', ''five''] \<and>
   (3::nat) < length [''one'', ''two'', ''three'', ''four'', ''five''] \<and>
   cancel_flag cancel_during_line3 (BeforeSynthesize 3) \<and>
   snd (generate_writing_run cancel_during_line3 False (initial_world\<lparr>self_text := five_lines\<rparr>)) = Bailed \<and>
   outputs (fst (generate_writing_run cancel_during_line3 False (initial_world\<lparr>self_text := five_lines\<rparr>))) = [] \<and>
   dirs (fst (generate_writing_run cancel_during_line3 False (initial_world\<lparr>self_text := five_lines\<rparr>)))
     ''handsynth-temp-RUN001'' = None"
proof -
  have h1: "\<not> cancel_flag cancel_during_line3 BeforePrepare"
    by (simp add: cancel_during_line3_def)
  have h2: "prepare_lines (get_max_line_width (live cancel_during_line3 AtPrepare))
     (py_splitlines (self_text (initial_world\<lparr>self_text := five_lines\<rparr>))) =
     Inr [''one'', ''two'', ''three'', ''four'', ''five'']"
    by code_simp
  have h3: "(3::nat) < length [''one'', ''two'', ''three'', ''four'', ''five'']" by simp
  have h4: "cancel_flag cancel_during_line3 (BeforeSynthesize 3) \<or>
            cancel_flag cancel_during_line3 (BeforeRasterize 3)"
    by (simp add: cancel_during_line3_def)
  have id: "fileid cancel_during_line3 = ''RUN001''"
    by (simp add: cancel_during_line3_def quiet_env_def)
  have out: "outputs (initial_world\<lparr>self_text := five_lines\<rparr>) = []"
    by (simp add: initial_world_def)
  from C3_cancellation_outcome [OF h1 h2 h3 h4, of False] h1 h2 h3 h4 id out
  show ?thesis by (simp add: cancel_during_line3_def)
qed






text \<open>
  C4 fails on the code. \<open>run_removes_tempdir\<close> above shows the temporary directory gone
  after a run that returns and after a run that bails out. An exception that leaves
  \<^verbatim>\<open>generate_writing\<close> skips line 1836: in the run of five lines whose third line fails
  synthesis, \<^verbatim>\<open>Image.open\<close> raises in the composition loop and the directory stays; when
  \<^verbatim>\<open>fulltrim\<close> raises, the directory stays as well.
\<close>

theorem C4_tempdir_left_behind_after_exception:
  "snd (generate_writing_direct line3_fails five_lines initial_world) = Raised (FileNotFoundError 2) \<and>
   dirs (fst (generate_writing_direct line3_fails five_lines initial_world)) ''handsynth-temp-RUN001'' \<noteq> None \<and>
   snd (generate_writing_direct (quiet_env\<lparr>fulltrim := Some ''trim failed''\<rparr>) five_lines initial_world) =
     Raised (OtherException ''trim failed'') \<and>
   dirs (fst (generate_writing_direct (quiet_env\<lparr>fulltrim := Some ''trim failed''\<rparr>) five_lines initial_world))
     ''handsynth-temp-RUN001'' \<noteq> None"
proof -
  have a: "snd (generate_writing_direct line3_fails five_lines initial_world) = Raised (FileNotFoundError 2)"
    by code_simp
  have b: "dirs (fst (generate_writing_direct line3_fails five_lines initial_world)) ''handsynth-temp-RUN001'' \<noteq> None"
    by code_simp
  have c: "snd (generate_writing_direct (quiet_env\<lparr>fulltrim := Some ''trim failed''\<rparr>) five_lines initial_world) =
     Raised (OtherException ''trim failed'')"
    by code_simp
  have d: "dirs (fst (generate_writing_direct (quiet_env\<lparr>fulltrim := Some ''trim failed''\<rparr>) five_lines initial_world))
     ''handsynth-temp-RUN001'' \<noteq> None"
    by code_simp
  from a b c d show ?thesis by blast
qed


subsection \<open>The settings a run reads\<close>

text \<open>
  Two histories of the controller's settings agree on what a run reads, at the moment the
  run reads it: legibility, stroke width and the maximal line width when the lines are
  prepared; style and stroke colour when each line is synthesised; the line spacing after
  rasterisation; the image placement (switch, path, whether the file exists, position and
  size) before composition; orientation and wrap style when each line is composed;
  background type, colour and image, export format and JPG quality when the page is saved.
\<close>

definition reads_agree :: "(phase \<Rightarrow> settings) \<Rightarrow> (phase \<Rightarrow> settings) \<Rightarrow> bool" where
  "reads_agree L L' \<longleftrightarrow>
     legibilityscale (L AtPrepare) = legibilityscale (L' AtPrepare) \<and>
     widthscale (L AtPrepare) = widthscale (L' AtPrepare) \<and>
     get_max_line_width (L AtPrepare) = get_max_line_width (L' AtPrepare) \<and>
     (\<forall>i. currentstyle (L (AtSynthesize i)) = currentstyle (L' (AtSynthesize i)) \<and>
          stroke_color (L (AtSynthesize i)) = stroke_color (L' (AtSynthesize i))) \<and>
     lineheightscale (L AtSpacing) = lineheightscale (L' AtSpacing) \<and>
     image_enabled (L AtPlacement) = image_enabled (L' AtPlacement) \<and>
     image_path (L AtPlacement) = image_path (L' AtPlacement) \<and>
     image_path_exists (L AtPlacement) = image_path_exists (L' AtPlacement) \<and>
     image_x (L AtPlacement) = image_x (L' AtPlacement) \<and>
     image_y (L AtPlacement) = image_y (L' AtPlacement) \<and>
     image_width (L AtPlacement) = image_width (L' AtPlacement) \<and>
     image_height (L AtPlacement) = image_height (L' AtPlacement) \<and>
     (\<forall>i. orientation (L (AtCompose i)) = orientation (L' (AtCompose i)) \<and>
          image_wrap_style (L (AtCompose i)) = image_wrap_style (L' (AtCompose i))) \<and>
     background_type (L AtEncode) = background_type (L' AtEncode) \<and>
     background_color (L AtEncode) = background_color (L' AtEncode) \<and>
     background_image_path (L AtEncode) = background_image_path (L' AtEncode) \<and>
     export_format (L AtEncode) = export_format (L' AtEncode) \<and>
     jpg_quality (L AtEncode) = jpg_quality (L' AtEncode)"

text \<open>
  Two histories that start from the default settings. In the first the user moves the
  line spacing to 120 right after the run has started. In the second the settings differ
  from the defaults only where the run does not look: style, stroke colour, line spacing,
  orientation and JPG quality while the lines are prepared; legibility, stroke width and
  line width when the page is saved.
\<close>

definition spacing_changed_after_start :: "phase \<Rightarrow> settings" where
  "spacing_changed_after_start p =
     (if p = AtPrepare then default_settings else default_settings\<lparr>lineheightscale := 120\<rparr>)"

definition unread_settings_changed :: "phase \<Rightarrow> settings" where
  "unread_settings_changed p =
     (if p = AtPrepare then
        default_settings\<lparr>currentstyle := 7, stroke_color := ''#000000'', lineheightscale := 120,
                         orientation := ''Right'', jpg_quality := 50\<rparr>
      else if p = AtEncode then
        default_settings\<lparr>legibilityscale := 100, widthscale := 10, linewidthscale := 10,
                         custom_width_var := None\<rparr>
      else default_settings)"

text \<open>
  A history that starts from the default settings, in which the user picks a black stroke
  after the second line has been synthesised.
\<close>

definition stroke_changed_after_line2 :: "phase \<Rightarrow> settings" where
  "stroke_changed_after_line2 p =
     (case p of
        AtPrepare \<Rightarrow> default_settings
      | AtSynthesize i \<Rightarrow> if i < 2 then default_settings
                          else default_settings\<lparr>stroke_color := ''#000000''\<rparr>
      | _ \<Rightarrow> default_settings\<lparr>stroke_color := ''#000000''\<rparr>)"

lemma hand_write_args_live:
  assumes "reads_agree L (live E)"
  shows "hand_write_args (E\<lparr>live := L\<rparr>) i line = hand_write_args E i line"
  using assms by (simp add: hand_write_args_def reads_agree_def)

lemma synthesize_line_live:
  assumes "reads_agree L (live E)"
  shows "synthesize_line (E\<lparr>live := L\<rparr>) i line w = synthesize_line E i line w"
  by (simp add: synthesize_line_def hand_write_args_live [OF assms] split: option.splits)

lemma synth_loop_live:
  assumes "reads_agree L (live E)"
  shows "synth_loop (E\<lparr>live := L\<rparr>) q i ls w = synth_loop E q i ls w"
  by (induction ls arbitrary: i w) (simp_all add: synthesize_line_live [OF assms])

lemma rasterize_line_live [simp]:
  "rasterize_line (E\<lparr>live := L\<rparr>) i line w = rasterize_line E i line w"
  by (simp add: rasterize_line_def split: option.splits)

lemma raster_loop_live [simp]:
  "raster_loop (E\<lparr>live := L\<rparr>) q i ls w = raster_loop E q i ls w"
  by (induction ls arbitrary: i w) simp_all

lemma compose_loop_live:
  assumes "\<forall>i. orientation (L (AtCompose i)) = orientation (live E (AtCompose i)) \<and>
               image_wrap_style (L (AtCompose i)) = image_wrap_style (live E (AtCompose i))"
  shows "compose_loop (E\<lparr>live := L\<rparr>) pngs sp ib use idxs = compose_loop E pngs sp ib use idxs"
  using assms by (induction idxs) (simp_all split: option.splits sum.splits)

lemma place_image_live:
  assumes "reads_agree L (live E)"
  shows "place_image (E\<lparr>live := L\<rparr>) w = place_image E w"
proof -
  have "image_enabled (L AtPlacement) = image_enabled (live E AtPlacement)"
    and "image_path (L AtPlacement) = image_path (live E AtPlacement)"
    and "image_path_exists (L AtPlacement) = image_path_exists (live E AtPlacement)"
    and "image_x (L AtPlacement) = image_x (live E AtPlacement)"
    and "image_y (L AtPlacement) = image_y (live E AtPlacement)"
    and "image_width (L AtPlacement) = image_width (live E AtPlacement)"
    and "image_height (L AtPlacement) = image_height (live E AtPlacement)"
    using assms by (simp_all add: reads_agree_def)
  then show ?thesis by (cases "placed_image E") (auto simp add: place_image_def Let_def)
qed

lemma background_step_live:
  assumes "reads_agree L (live E)"
  shows "background_step (E\<lparr>live := L\<rparr>) w = background_step E w"
proof -
  have t: "background_type (L AtEncode) = background_type (live E AtEncode)"
    and c: "background_color (L AtEncode) = background_color (live E AtEncode)"
    and p: "background_image_path (L AtEncode) = background_image_path (live E AtEncode)"
    using assms by (simp_all add: reads_agree_def)
  show ?thesis by (simp add: background_step_def t c p Let_def split: option.splits)
qed

lemma write_output_live:
  assumes "reads_agree L (live E)"
  shows "write_output (E\<lparr>live := L\<rparr>) p pg bg w = write_output E p pg bg w"
proof -
  have x: "output_extension (E\<lparr>live := L\<rparr>) = output_extension E"
    using assms by (simp add: output_extension_def reads_agree_def Let_def)
  have j: "jpg_quality (L AtEncode) = jpg_quality (live E AtEncode)"
    using assms by (simp add: reads_agree_def)
  show ?thesis by (simp add: write_output_def x j split: option.splits)
qed

lemma save_page_live:
  assumes "reads_agree L (live E)"
  shows "save_page (E\<lparr>live := L\<rparr>) q pg w = save_page E q pg w"
  by (simp add: save_page_def background_step_live [OF assms] write_output_live [OF assms]
        split: option.splits sum.splits)

lemma combine_lines_live:
  assumes "reads_agree L (live E)"
  shows "combine_lines (E\<lparr>live := L\<rparr>) q n w = combine_lines E q n w"
proof -
  have c: "\<forall>i. orientation (L (AtCompose i)) = orientation (live E (AtCompose i)) \<and>
               image_wrap_style (L (AtCompose i)) = image_wrap_style (live E (AtCompose i))"
    using assms by (simp add: reads_agree_def)
  have sp: "lineheightscale (L AtSpacing) = lineheightscale (live E AtSpacing)"
    and en: "image_enabled (L AtPlacement) = image_enabled (live E AtPlacement)"
    and ip: "image_path (L AtPlacement) = image_path (live E AtPlacement)"
    using assms by (simp_all add: reads_agree_def)
  show ?thesis
    by (auto simp add: combine_lines_def place_image_live [OF assms] save_page_live [OF assms]
          compose_loop_live [OF c] sp en ip Let_def split: sum.splits)
qed

text \<open>
  C9, as the code has it. The run takes no snapshot: it reads each setting from the
  controller at the moment it needs it. Its result, that is the final state with the output
  files (the strokes of every line, the positions, the placed image, the background, the
  format and the quality) and how the run ended, is determined by the text and by the
  values the settings have at those moments: a history of the settings that agrees with
  the one the run sees on every value listed in \<open>reads_agree\<close> gives the same result,
  however else it differs.
\<close>

theorem C9_result_determined_by_values_read:
  assumes "reads_agree L (live E)"
  shows "generate_writing_run (E\<lparr>live := L\<rparr>) is_queue_item w = generate_writing_run E is_queue_item w"
proof -
  have mw: "get_max_line_width (L AtPrepare) = get_max_line_width (live E AtPrepare)"
    using assms by (simp add: reads_agree_def)
  show ?thesis
    by (simp add: generate_writing_run_def combine_lines_live [OF assms] synth_loop_live [OF assms]
          mw Let_def split: sum.splits)
qed

theorem C9_result_determined_by_values_read_witness:
  "reads_agree unread_settings_changed (live quiet_env) \<and>
   unread_settings_changed AtPrepare \<noteq> live quiet_env AtPrepare \<and>
   unread_settings_changed AtEncode \<noteq> live quiet_env AtEncode \<and>
   generate_writing_run (quiet_env\<lparr>live := unread_settings_changed\<rparr>) False
     (initial_world\<lparr>self_text := five_lines\<rparr>) =
   generate_writing_run quiet_env False (initial_world\<lparr>self_text := five_lines\<rparr>)"
proof -
  have h: "reads_agree unread_settings_changed (live quiet_env)"
    by (simp add: reads_agree_def unread_settings_changed_def quiet_env_def default_settings_def
          get_max_line_width_def)
  have d: "unread_settings_changed AtPrepare \<noteq> live quiet_env AtPrepare"
    by (simp add: unread_settings_changed_def quiet_env_def default_settings_def)
  have e: "unread_settings_changed AtEncode \<noteq> live quiet_env AtEncode"
    by (simp add: unread_settings_changed_def quiet_env_def default_settings_def)
  from C9_result_determined_by_values_read [OF h, of False "initial_world\<lparr>self_text := five_lines\<rparr>"] h d e
  show ?thesis by simp
qed

text \<open>
  C9 as stated fails. Two runs start from the same text and the same settings. In one of
  them the line spacing is changed from 80 to 120 after the start: the lines of the first
  page are pasted 80 pixels apart, those of the second 120 pixels apart. In another the
  stroke colour is changed to black after the second line has been synthesised: the first
  two lines of the page are drawn in the colour of the start, the other three in black.
\<close>

theorem C9_settings_are_read_during_the_run_counterexample:
  "spacing_changed_after_start AtPrepare = live quiet_env AtPrepare \<and>
   map (\<lambda>f. map (\<lambda>(i, line_img, xy). (i, xy)) (pastes (file_page f)))
     (outputs (fst (generate_writing_run quiet_env False (initial_world\<lparr>self_text := five_lines\<rparr>)))) =
     [[(0, 400, 80), (1, 400, 160), (2, 400, 240), (3, 400, 320), (4, 400, 400)]] \<and>
   map (\<lambda>f. map (\<lambda>(i, line_img, xy). (i, xy)) (pastes (file_page f)))
     (outputs (fst (generate_writing_run (quiet_env\<lparr>live := spacing_changed_after_start\<rparr>) False
        (initial_world\<lparr>self_text := five_lines\<rparr>)))) =
     [[(0, 400, 120), (1, 400, 240), (2, 400, 360), (3, 400, 480), (4, 400, 600)]] \<and>
   generate_writing_run (quiet_env\<lparr>live := spacing_changed_after_start\<rparr>) False
     (initial_world\<lparr>self_text := five_lines\<rparr>) \<noteq>
   generate_writing_run quiet_env False (initial_world\<lparr>self_text := five_lines\<rparr>) \<and>
   stroke_changed_after_line2 AtPrepare = live quiet_env AtPrepare \<and>
   map (\<lambda>f. map (\<lambda>(i, line_img, xy). map_option drawn_color (raster_ink line_img)) (pastes (file_page f)))
     (outputs (fst (generate_writing_run (quiet_env\<lparr>live := stroke_changed_after_line2\<rparr>) False
        (initial_world\<lparr>self_text := five_lines\<rparr>)))) =
     [[Some ''#003264'', Some ''#003264'', Some ''#000000'', Some ''#000000'', Some ''#000000'']]"
proof -
  have a: "spacing_changed_after_start AtPrepare = live quiet_env AtPrepare"
    by (simp add: spacing_changed_after_start_def quiet_env_def)
  have b: "map (\<lambda>f. map (\<lambda>(i, line_img, xy). (i, xy)) (pastes (file_page f)))
     (outputs (fst (generate_writing_run quiet_env False (initial_world\<lparr>self_text := five_lines\<rparr>)))) =
     [[(0, 400, 80), (1, 400, 160), (2, 400, 240), (3, 400, 320), (4, 400, 400)]]"
    by code_simp
  have c: "map (\<lambda>f. map (\<lambda>(i, line_img, xy). (i, xy)) (pastes (file_page f)))
     (outputs (fst (generate_writing_run (quiet_env\<lparr>live := spacing_changed_after_start\<rparr>) False
        (initial_world\<lparr>self_text := five_lines\<rparr>)))) =
     [[(0, 400, 120), (1, 400, 240), (2, 400, 360), (3, 400, 480), (4, 400, 600)]]"
    by code_simp
  have d: "generate_writing_run (quiet_env\<lparr>live := spacing_changed_after_start\<rparr>) False
     (initial_world\<lparr>self_text := five_lines\<rparr>) \<noteq>
   generate_writing_run quiet_env False (initial_world\<lparr>self_text := five_lines\<rparr>)"
  proof
    assume "generate_writing_run (quiet_env\<lparr>live := spacing_changed_after_start\<rparr>) False
     (initial_world\<lparr>self_text := five_lines\<rparr>) =
      generate_writing_run quiet_env False (initial_world\<lparr>self_text := five_lines\<rparr>)"
    with b c show False by simp
  qed
  have e: "stroke_changed_after_line2 AtPrepare = live quiet_env AtPrepare"
    by (simp add: stroke_changed_after_line2_def quiet_env_def)
  have f: "map (\<lambda>f. map (\<lambda>(i, line_img, xy). map_option drawn_color (raster_ink line_img)) (pastes (file_page f)))
     (outputs (fst (generate_writing_run (quiet_env\<lparr>live := stroke_changed_after_line2\<rparr>) False
        (initial_world\<lparr>self_text := five_lines\<rparr>)))) =
     [[Some ''#003264'', Some ''#003264'', Some ''#000000'', Some ''#000000'', Some ''#000000'']]"
    by code_simp
  from a b c d e f show ?thesis by blast
qed


section \<open>The queue\<close>

text \<open>
  \<^verbatim>\<open>generate_dialog\<close> for a queue item (\<^verbatim>\<open>is_queue_item\<close> true): the cancel flag and the log
  are reset and the dialog opens; the text is not read from the widget nor validated again.
\<close>

definition generate_dialog_queue_item :: "world \<Rightarrow> world" where
  "generate_dialog_queue_item w = w\<lparr>self_errors := [], generatedialog := True, log_btn := False\<rparr>"

text \<open>
  \<^verbatim>\<open>process_next_queue_item\<close>, lines 1513 to 1523, for an index inside the queue: the run of
  the current item. Item \<open>n\<close> of the queue runs in the environment \<open>envs n\<close>.
\<close>

definition run_current_item :: "(nat \<Rightarrow> env) \<Rightarrow> world \<Rightarrow> world \<times> run_end" where
  "run_current_item envs w =
     generate_writing_run (envs (current_queue_index w)) True
       (generate_dialog_queue_item
          (w\<lparr>self_text := item_text (text_queue w ! current_queue_index w)\<rparr>))"

lemma frame_run_current_item [simp]:
  "text_queue (fst (run_current_item envs w)) = text_queue w"
  "current_queue_index (fst (run_current_item envs w)) = current_queue_index w"
  by (simp_all add: run_current_item_def generate_dialog_queue_item_def)

text \<open>
  \<^verbatim>\<open>process_next_queue_item\<close> (line 1504) together with the end of \<^verbatim>\<open>generate_writing\<close> for a
  queue item (lines 1848 to 1857), which calls it again: the state when the chain of runs
  has come to rest. Only a run that reaches line 1848 advances the index; \<^verbatim>\<open>bail_out\<close>
  returns before, and so does an exception.
\<close>

function process_next_queue_item :: "(nat \<Rightarrow> env) \<Rightarrow> world \<Rightarrow> world" where
  "process_next_queue_item envs w =
     (if current_queue_index w \<ge> length (text_queue w)
      then enable_controls (w\<lparr>processing_queue := False\<rparr>)
      else
        (let r = run_current_item envs w in
         if snd r = Done then
           (let w2 = (fst r)\<lparr>current_queue_index := current_queue_index (fst r) + 1\<rparr> in
            if current_queue_index w2 < length (text_queue w2)
            then process_next_queue_item envs w2
            else enable_controls (w2\<lparr>processing_queue := False\<rparr>))
         else fst r))"
  by pat_completeness auto
termination
  by (relation "measure (\<lambda>(envs, w). length (text_queue w) - current_queue_index w)") auto

declare process_next_queue_item.simps [simp del]

text \<open>\<^verbatim>\<open>process_queue\<close> (line 1489).\<close>

definition process_queue :: "(nat \<Rightarrow> env) \<Rightarrow> world \<Rightarrow> world" where
  "process_queue envs w =
     (if length (text_queue w) = 0 then w
      else process_next_queue_item envs
             (disable_controls (w\<lparr>processing_queue := True, current_queue_index := 0\<rparr>)))"

text \<open>
  The window with the jobs A, B and C enqueued, and the environments of their runs when the
  user cancels during B's run, after its first line has been started. \<open>queue_at_A\<close> is the
  state in which the queue starts on A, \<open>queue_at_B\<close> the state in which it starts on B.
\<close>

definition queue_ABC :: world where
  "queue_ABC =
     initial_world\<lparr>text_queue :=
       [QueueItem (''alpha'' @ [CHR 0x0A]) ''A'', QueueItem (''beta'' @ [CHR 0x0A]) ''B'',
        QueueItem (''gamma'' @ [CHR 0x0A]) ''C''],
       process_queue_btn := True\<rparr>"

definition cancel_during_B :: "nat \<Rightarrow> env" where
  "cancel_during_B n =
     quiet_env\<lparr>fileid := ''RUN00'' @ str_nat n,
               cancel_flag := (\<lambda>c. n = 1 \<and> c \<noteq> BeforePrepare \<and> c \<noteq> BeforeSynthesize 0)\<rparr>"

definition queue_at_A :: world where
  "queue_at_A = disable_controls (queue_ABC\<lparr>processing_queue := True, current_queue_index := 0\<rparr>)"

definition queue_at_B :: world where
  "queue_at_B = (fst (run_current_item cancel_during_B queue_at_A))\<lparr>current_queue_index := 1\<rparr>"

text \<open>The buttons \<^verbatim>\<open>enable_controls\<close> enables are all enabled.\<close>

definition controls_enabled :: "world \<Rightarrow> bool" where
  "controls_enabled w \<longleftrightarrow> generatebutton w \<and> queue_buttons w \<and> process_queue_btn w"

lemma bail_out_enables_controls:
  "text_queue w \<noteq> [] \<Longrightarrow> controls_enabled (bail_out True w)"
  by (simp add: controls_enabled_def bail_out_def enable_controls_def Let_def rmtree_def
        split: option.splits)

lemma synth_loop_bailed_enables_controls:
  "snd (synth_loop E True i ls w) \<Longrightarrow> text_queue w \<noteq> [] \<Longrightarrow>
   controls_enabled (fst (synth_loop E True i ls w))"
  by (induction ls arbitrary: i w) (auto simp: bail_out_enables_controls split: if_splits)

lemma raster_loop_bailed_enables_controls:
  "snd (raster_loop E True i ls w) \<Longrightarrow> text_queue w \<noteq> [] \<Longrightarrow>
   controls_enabled (fst (raster_loop E True i ls w))"
  by (induction ls arbitrary: i w) (auto simp: bail_out_enables_controls split: if_splits)

lemma combine_lines_bailed_enables_controls:
  "snd (combine_lines E True n w) = Bailed \<Longrightarrow> text_queue w \<noteq> [] \<Longrightarrow>
   controls_enabled (fst (combine_lines E True n w))"
  by (auto simp: combine_lines_def Let_def save_page_not_bailed bail_out_enables_controls
        split: sum.splits if_splits)

lemma run_bailed_enables_controls:
  assumes "snd (generate_writing_run E True w) = Bailed" and "text_queue w \<noteq> []"
  shows "controls_enabled (fst (generate_writing_run E True w))"
  using assms
  by (auto simp: generate_writing_run_def Let_def bail_out_enables_controls
        synth_loop_bailed_enables_controls raster_loop_bailed_enables_controls
        combine_lines_bailed_enables_controls split: sum.splits if_splits)

text \<open>
  C1, as the code has it. When the run of the current item finishes (with or without
  warnings), the index advances by exactly one; the next item runs if there is one, and
  otherwise the queue ends and the controls are enabled. When the run of the current item
  is cancelled, the queue stops there: the index does not advance, no later item runs, the
  queue and the files under \<^verbatim>\<open>outputs/\<close> are left as they are, and the controls are enabled
  again.
\<close>

theorem C1_queue_advances_after_a_finished_run_only:
  assumes "current_queue_index w < length (text_queue w)"
  shows "(snd (run_current_item envs w) = Done \<longrightarrow>
            process_next_queue_item envs w =
              (if current_queue_index w + 1 < length (text_queue w)
               then process_next_queue_item envs
                      ((fst (run_current_item envs w))\<lparr>current_queue_index := current_queue_index w + 1\<rparr>)
               else enable_controls
                      ((fst (run_current_item envs w))\<lparr>current_queue_index := current_queue_index w + 1,
                         processing_queue := False\<rparr>))) \<and>
         (snd (run_current_item envs w) = Bailed \<longrightarrow>
            process_next_queue_item envs w = fst (run_current_item envs w) \<and>
            current_queue_index (process_next_queue_item envs w) = current_queue_index w \<and>
            text_queue (process_next_queue_item envs w) = text_queue w \<and>
            outputs (process_next_queue_item envs w) = outputs w \<and>
            controls_enabled (process_next_queue_item envs w))"
proof (intro conjI impI)
  assume d: "snd (run_current_item envs w) = Done"
  show "process_next_queue_item envs w =
              (if current_queue_index w + 1 < length (text_queue w)
               then process_next_queue_item envs
                      ((fst (run_current_item envs w))\<lparr>current_queue_index := current_queue_index w + 1\<rparr>)
               else enable_controls
                      ((fst (run_current_item envs w))\<lparr>current_queue_index := current_queue_index w + 1,
                         processing_queue := False\<rparr>))"
    using assms d by (subst process_next_queue_item.simps) (simp add: Let_def)
next
  assume b: "snd (run_current_item envs w) = Bailed"
  have eq: "process_next_queue_item envs w = fst (run_current_item envs w)"
    using assms b by (subst process_next_queue_item.simps) (simp add: Let_def)
  have tq: "text_queue w \<noteq> []" using assms by auto
  have out: "outputs (fst (run_current_item envs w)) = outputs w"
    using b run_not_done_keeps_outputs
      [of "envs (current_queue_index w)" True
          "generate_dialog_queue_item (w\<lparr>self_text := item_text (text_queue w ! current_queue_index w)\<rparr>)"]
    by (simp add: run_current_item_def generate_dialog_queue_item_def)
  have ce: "controls_enabled (fst (run_current_item envs w))"
    using b tq run_bailed_enables_controls
      [of "envs (current_queue_index w)"
          "generate_dialog_queue_item (w\<lparr>self_text := item_text (text_queue w ! current_queue_index w)\<rparr>)"]
    by (simp add: run_current_item_def generate_dialog_queue_item_def)
  show "process_next_queue_item envs w = fst (run_current_item envs w)" by (rule eq)
  show "current_queue_index (process_next_queue_item envs w) = current_queue_index w"
    unfolding eq by simp
  show "text_queue (process_next_queue_item envs w) = text_queue w"
    unfolding eq by simp
  show "outputs (process_next_queue_item envs w) = outputs w"
    unfolding eq by (rule out)
  show "controls_enabled (process_next_queue_item envs w)"
    unfolding eq by (rule ce)
qed

theorem C1_queue_advances_after_a_finished_run_only_witness:
  "current_queue_index queue_at_A < length (text_queue queue_at_A) \<and>
   snd (run_current_item cancel_during_B queue_at_A) = Done \<and>
   process_next_queue_item cancel_during_B queue_at_A = process_next_queue_item cancel_during_B queue_at_B \<and>
   current_queue_index queue_at_B = current_queue_index queue_at_A + 1 \<and>
   snd (run_current_item cancel_during_B queue_at_B) = Bailed \<and>
   current_queue_index (process_next_queue_item cancel_during_B queue_at_B) = 1 \<and>
   outputs (process_next_queue_item cancel_during_B queue_at_B) = outputs queue_at_B \<and>
   controls_enabled (process_next_queue_item cancel_during_B queue_at_B)"
proof -
  have tq: "text_queue queue_at_A = text_queue queue_ABC"
    by (simp add: queue_at_A_def disable_controls_def)
  have ia: "current_queue_index queue_at_A = 0"
    by (simp add: queue_at_A_def disable_controls_def)
  have len: "length (text_queue queue_ABC) = 3"
    by (simp add: queue_ABC_def)
  have hA: "current_queue_index queue_at_A < length (text_queue queue_at_A)"
    by (simp add: tq ia len)
  have dA: "snd (run_current_item cancel_during_B queue_at_A) = Done"
    by code_simp
  have ib: "current_queue_index queue_at_B = 1"
    by (simp add: queue_at_B_def)
  have hB: "current_queue_index queue_at_B < length (text_queue queue_at_B)"
    by (simp add: queue_at_B_def tq len)
  have bB: "snd (run_current_item cancel_during_B queue_at_B) = Bailed"
    by code_simp
  from C1_queue_advances_after_a_finished_run_only [OF hA, of cancel_during_B] dA
  have stepA: "process_next_queue_item cancel_during_B queue_at_A =
               process_next_queue_item cancel_during_B queue_at_B"
    by (simp add: ia tq len queue_at_B_def)
  from C1_queue_advances_after_a_finished_run_only [OF hB, of cancel_during_B] bB
  have sB: "current_queue_index (process_next_queue_item cancel_during_B queue_at_B) =
              current_queue_index queue_at_B \<and>
            outputs (process_next_queue_item cancel_during_B queue_at_B) = outputs queue_at_B \<and>
            controls_enabled (process_next_queue_item cancel_during_B queue_at_B)"
    by blast
  then have stepB: "current_queue_index (process_next_queue_item cancel_during_B queue_at_B) = 1"
    "outputs (process_next_queue_item cancel_during_B queue_at_B) = outputs queue_at_B"
    "controls_enabled (process_next_queue_item cancel_during_B queue_at_B)"
    unfolding ib by blast+
  from hA dA stepA ib ia bB stepB show ?thesis by simp
qed

text \<open>
  C1 as stated fails. With A, B and C enqueued and B's run cancelled, the queue comes to
  rest with the index still at B (1, not 2 or 3), A's output is the only file written, so
  C has not run, and \<^verbatim>\<open>processing_queue\<close> is still set.
\<close>

theorem C1_queue_stops_after_cancelled_run_counterexample:
  "length (text_queue queue_ABC) = 3 \<and>
   snd (run_current_item cancel_during_B queue_at_B) = Bailed \<and>
   current_queue_index (process_queue cancel_during_B queue_ABC) = 1 \<and>
   map file_path (outputs (process_queue cancel_during_B queue_ABC)) = [''outputs/RUN000-A.png''] \<and>
   processing_queue (process_queue cancel_during_B queue_ABC)"
proof -
  have a: "length (text_queue queue_ABC) = 3" by (simp add: queue_ABC_def)
  have b: "snd (run_current_item cancel_during_B queue_at_B) = Bailed" by code_simp
  have c: "current_queue_index (process_queue cancel_during_B queue_ABC) = 1" by code_simp
  have d: "map file_path (outputs (process_queue cancel_during_B queue_ABC)) = [''outputs/RUN000-A.png'']"
    by code_simp
  have e: "processing_queue (process_queue cancel_during_B queue_ABC)" by code_simp
  from a b c d e show ?thesis by blast
qed

end
